theory Spec2Isabelle
  imports Complex_Main
begin

section \<open>AYNEC DataGen: data model\<close>

text \<open>
  The generator of \<^verbatim>\<open>DataGen.py\<close> works on entity and relation names (Python
  strings) and on edges, which are tuples \<^verbatim>\<open>(relation, source, target)\<close>.
  A Python \<^verbatim>\<open>set\<close> is modelled by the list of its elements in the order in which the
  run iterates over it (a list without repetitions); a \<^verbatim>\<open>dict\<close> by the association
  list of its items in insertion order. Python floats are modelled by exact rationals.
\<close>

type_synonym entity = string
type_synonym relation = string
type_synonym edge = "relation \<times> entity \<times> entity"

datatype py_error = KeyError | UnboundLocalError | ValueError | AttributeError | ZeroDivisionError | IndexError

subsection \<open>The random source\<close>

text \<open>
  \<^verbatim>\<open>random()\<close> and \<^verbatim>\<open>sample(population, 1)\<close> consume the generator's raw
  outputs one after the other. The raw outputs are a stream \<open>g\<close> of naturals and the
  position \<open>k\<close> of the next unread output is threaded through every function that
  draws. \<^verbatim>\<open>random()\<close> returns a multiple of \<open>2^-53\<close> in \<open>[0, 1)\<close>;
  \<^verbatim>\<open>sample(xs, 1)[0]\<close> returns the element of \<open>xs\<close> at a position below
  \<open>len(xs)\<close> (the source only calls it on lists of two or more elements).
\<close>

type_synonym rng = "nat \<Rightarrow> nat"

definition random :: "rng \<Rightarrow> nat \<Rightarrow> rat" where
  "random g k = of_nat (g k mod 2 ^ 53) / 2 ^ 53"

definition sample1 :: "rng \<Rightarrow> nat \<Rightarrow> 'a list \<Rightarrow> 'a" where
  "sample1 g k xs = xs ! (g k mod length xs)"

lemma random_ge_0: "0 \<le> random g k"
  by (simp add: random_def)

lemma random_less_1: "random g k < 1"
proof -
  have "g k mod 2 ^ 53 < (2 ^ 53 :: nat)"
    by simp
  then have "(of_nat (g k mod 2 ^ 53) :: rat) < of_nat (2 ^ 53)"
    by (simp only: of_nat_less_iff)
  then show ?thesis
    by (simp add: random_def)
qed

section \<open>generate_negatives: how many negatives per positive\<close>

text \<open>
  \<^verbatim>\<open>
  factor_copy = negatives_factor
  num_negatives = 0
  while random() < factor_copy:
      factor_copy -= 1.0
      num_negatives += 1
  \<close>
  The function returns \<open>num_negatives\<close> and the position of the next unread raw output.
  Every test of the loop condition reads one output, the failing one included.
\<close>

function num_negatives_loop :: "rng \<Rightarrow> nat \<Rightarrow> rat \<Rightarrow> nat \<Rightarrow> nat \<times> nat" where
  "num_negatives_loop g k factor_copy num_negatives =
     (if random g k < factor_copy
      then num_negatives_loop g (Suc k) (factor_copy - 1) (num_negatives + 1)
      else (num_negatives, Suc k))"
  by pat_completeness auto
termination
proof (relation "measure (\<lambda>(g, k, f, n). nat \<lceil>f\<rceil>)")
  show "wf (measure (\<lambda>(g, k, f, n). nat \<lceil>f\<rceil>))"
    by simp
next
  fix g :: rng and k :: nat and factor_copy :: rat and num_negatives :: nat
  assume "random g k < factor_copy"
  then have "0 < factor_copy"
    using random_ge_0 [of g k] by linarith
  then have "0 < \<lceil>factor_copy\<rceil>"
    by (simp add: zero_less_ceiling)
  moreover have "\<lceil>factor_copy - 1\<rceil> = \<lceil>factor_copy\<rceil> - 1"
    by simp
  ultimately show "((g, Suc k, factor_copy - 1, num_negatives + 1), (g, k, factor_copy, num_negatives))
      \<in> measure (\<lambda>(g, k, f, n). nat \<lceil>f\<rceil>)"
    by simp
qed

declare num_negatives_loop.simps [simp del]

definition num_negatives_for :: "rng \<Rightarrow> nat \<Rightarrow> rat \<Rightarrow> nat \<times> nat" where
  "num_negatives_for g k negatives_factor = num_negatives_loop g k negatives_factor 0"

subsection \<open>The count is the floor of the factor, or one more\<close>

lemma num_negatives_loop_ge_1:
  assumes "1 \<le> f"
  shows "num_negatives_loop g k f n = num_negatives_loop g (Suc k) (f - 1) (Suc n)"
proof -
  have "random g k < f"
    using random_less_1 [of g k] assms by linarith
  then show ?thesis
    by (subst num_negatives_loop.simps) simp
qed

lemma num_negatives_loop_le_0:
  assumes "f \<le> 0"
  shows "num_negatives_loop g k f n = (n, Suc k)"
proof -
  have "\<not> random g k < f"
    using random_ge_0 [of g k] assms by linarith
  then show ?thesis
    by (subst num_negatives_loop.simps) simp
qed

lemma num_negatives_loop_fraction:
  assumes "0 \<le> f" and "f < 1"
  shows "num_negatives_loop g k f n =
    (if random g k < f then (Suc n, Suc (Suc k)) else (n, Suc k))"
proof (cases "random g k < f")
  case True
  have "num_negatives_loop g k f n = num_negatives_loop g (Suc k) (f - 1) (Suc n)"
    using True by (subst num_negatives_loop.simps) simp
  also have "\<dots> = (Suc n, Suc (Suc k))"
    using assms by (intro num_negatives_loop_le_0) simp
  finally show ?thesis
    using True by simp
next
  case False
  then show ?thesis
    by (subst num_negatives_loop.simps) simp
qed

lemma num_negatives_loop_whole:
  assumes "of_nat m \<le> f"
  shows "num_negatives_loop g k f n = num_negatives_loop g (k + m) (f - of_nat m) (n + m)"
  using assms
proof (induction m arbitrary: k f n)
  case 0
  then show ?case by simp
next
  case (Suc m)
  from Suc.prems have one: "1 \<le> f" and rest: "of_nat m \<le> f - 1"
    by simp_all
  have "num_negatives_loop g k f n = num_negatives_loop g (Suc k) (f - 1) (Suc n)"
    using one by (rule num_negatives_loop_ge_1)
  also have "\<dots> = num_negatives_loop g (Suc k + m) (f - 1 - of_nat m) (Suc n + m)"
    using rest by (rule Suc.IH)
  finally show ?case
    by (simp add: algebra_simps)
qed

text \<open>
  Claim C7. For a factor greater than 0 the number of negatives requested for a positive
  is \<open>floor(factor)\<close> or \<open>floor(factor) + 1\<close>: the first \<open>floor(factor)\<close> draws always
  pass, and the extra negative is requested exactly when the next draw, the one compared
  with the fractional remainder of the factor, falls below that remainder. (When it
  does, one more draw is read and compared with a negative number, which ends the loop.)
\<close>

theorem num_negatives_floor_or_succ:
  assumes "0 < negatives_factor"
  shows "fst (num_negatives_for g k negatives_factor) =
      nat \<lfloor>negatives_factor\<rfloor> +
        (if random g (k + nat \<lfloor>negatives_factor\<rfloor>) < negatives_factor - of_int \<lfloor>negatives_factor\<rfloor>
         then 1 else 0)
    \<and> (fst (num_negatives_for g k negatives_factor) = nat \<lfloor>negatives_factor\<rfloor>
       \<or> fst (num_negatives_for g k negatives_factor) = nat \<lfloor>negatives_factor\<rfloor> + 1)"
proof -
  define m where "m = nat \<lfloor>negatives_factor\<rfloor>"
  have fl: "0 \<le> \<lfloor>negatives_factor\<rfloor>"
    using assms by simp
  then have m: "(of_nat m :: rat) = of_int \<lfloor>negatives_factor\<rfloor>"
    by (simp add: m_def)
  have le: "of_nat m \<le> negatives_factor"
    by (simp add: m)
  have frac: "0 \<le> negatives_factor - of_nat m" "negatives_factor - of_nat m < 1"
    unfolding m by linarith+
  have "num_negatives_for g k negatives_factor =
      num_negatives_loop g (k + m) (negatives_factor - of_nat m) (0 + m)"
    unfolding num_negatives_for_def using le by (rule num_negatives_loop_whole)
  also have "\<dots> = (if random g (k + m) < negatives_factor - of_nat m
      then (Suc (0 + m), Suc (Suc (k + m))) else (0 + m, Suc (k + m)))"
    using frac by (rule num_negatives_loop_fraction)
  finally have eq: "num_negatives_for g k negatives_factor =
      (if random g (k + m) < negatives_factor - of_nat m
       then (Suc m, Suc (Suc (k + m))) else (m, Suc (k + m)))"
    by simp
  show ?thesis
    unfolding eq m [symmetric] m_def [symmetric] by simp
qed

text \<open>
  With a factor of 5/2 and a generator whose raw outputs are all 0 (so that every
  \<^verbatim>\<open>random()\<close> is 0), three negatives are requested.
\<close>

theorem num_negatives_floor_or_succ_witness:
  "(0::rat) < 5 / 2 \<and> fst (num_negatives_for (\<lambda>_. 0) 0 (5 / 2)) = 3"
proof -
  have fl: "\<lfloor>(5::rat) / 2\<rfloor> = 2"
    by linarith
  show ?thesis
    using num_negatives_floor_or_succ [of "5 / 2" "\<lambda>_. 0" 0]
    by (simp add: random_def fl)
qed

section \<open>Sets and dicts as lists\<close>

text \<open>
  \<^verbatim>\<open>s.add(x)\<close>, \<^verbatim>\<open>s.update(ys)\<close>, \<^verbatim>\<open>d[k] = v\<close> and \<^verbatim>\<open>d.pop(k, None)\<close>.
\<close>

definition set_add :: "'a \<Rightarrow> 'a list \<Rightarrow> 'a list" where
  "set_add x xs = (if x \<in> set xs then xs else xs @ [x])"

definition set_update :: "'a list \<Rightarrow> 'a list \<Rightarrow> 'a list" where
  "set_update xs ys = fold set_add ys xs"

definition dict_set :: "('k \<times> 'v) list \<Rightarrow> 'k \<Rightarrow> 'v \<Rightarrow> ('k \<times> 'v) list" where
  "dict_set d k v =
     (if k \<in> fst ` set d then map (\<lambda>(k', v'). if k' = k then (k', v) else (k', v')) d
      else d @ [(k, v)])"

definition dict_pop :: "('k \<times> 'v) list \<Rightarrow> 'k \<Rightarrow> ('k \<times> 'v) list" where
  "dict_pop d k = filter (\<lambda>(k', v'). k' \<noteq> k) d"

section \<open>The generator's state\<close>

text \<open>
  The attributes of \<^verbatim>\<open>DatasetsGenerator\<close>. Of the \<^verbatim>\<open>entities\<close> dict only the keys
  are kept (the degree counters are not read by the functions modelled here). A bucket of
  a split has no \<^verbatim>\<open>"negative"\<close> key until negatives are generated: \<open>None\<close>.
\<close>

record bucket =
  positive :: "edge list"
  negative :: "edge list option"

record split =
  train :: bucket
  test :: bucket

record generator =
  entities :: "entity list"
  relations :: "relation list"
  edges :: "edge list"
  inverses :: "relation list"
  inverse_tuples :: "(relation \<times> relation) list"
  inverses_dict :: "(relation \<times> relation list) list"
  graphs :: "(nat \<times> split) list"
  number_splits :: nat
  ignored_rels_positives :: "relation list"
  entity_edges :: "(entity \<times> edge list) list"
  domains :: "(relation \<times> entity list) list"
  ranges :: "(relation \<times> entity list) list"
  grouped_edges :: "(relation \<times> (entity \<times> entity) list) list"
  ranks :: "rat list list option"

text \<open>
  The constructor. \<^verbatim>\<open>grouped_edges\<close> and \<^verbatim>\<open>ranks\<close> are attributes that only
  \<^verbatim>\<open>group_edges\<close> and \<^verbatim>\<open>compute_PPR\<close> create; \<^verbatim>\<open>ranks\<close> is \<open>None\<close> until then.
\<close>

definition new_generator :: "nat \<Rightarrow> generator" where
  "new_generator num_splits = \<lparr>entities = [], relations = [], edges = [],
     inverses = [], inverse_tuples = [], inverses_dict = [], graphs = [], number_splits = num_splits,
     ignored_rels_positives = [], entity_edges = [], domains = [], ranges = [],
     grouped_edges = [], ranks = None\<rparr>"

section \<open>split_graph\<close>

text \<open>
  \<^verbatim>\<open>range(a, b)\<close> over integers, and the body of the loop over the relations:
  \<^verbatim>\<open>
  offset = floor(len(edges) / self.number_splits * i)
  num_test = floor(len(edges) * fraction_test)
  ids_test = [(offset + x) % len(edges) for x in range(0, num_test)]
  ids_train = [(offset + x) % len(edges) for x in range(num_test, len(edges))]
  edges_test = [edges[id] for id in ids_test]
  edges_train = [edges[id] for id in ids_train]
  \<close>
  Python's \<^verbatim>\<open>%\<close> with a positive modulus is HOL's \<open>mod\<close> on \<open>int\<close>. With no
  edges, \<open>num_test\<close> is 0 and both ranges are empty, so no remainder by zero is taken.
\<close>

definition py_range :: "int \<Rightarrow> int \<Rightarrow> int list" where
  "py_range a b = [a..b - 1]"

definition split_relation :: "nat \<Rightarrow> nat \<Rightarrow> rat \<Rightarrow> 'a list \<Rightarrow> 'a list \<times> 'a list" where
  "split_relation num_splits i fraction_test es =
     (let n = int (length es);
          offset = \<lfloor>of_int n / of_nat num_splits * (of_nat i :: rat)\<rfloor>;
          num_test = \<lfloor>of_int n * fraction_test\<rfloor>;
          ids_test = map (\<lambda>x. (offset + x) mod n) (py_range 0 num_test);
          ids_train = map (\<lambda>x. (offset + x) mod n) (py_range num_test n);
          edges_test = map (\<lambda>id. es ! nat id) ids_test;
          edges_train = map (\<lambda>id. es ! nat id) ids_train
      in (edges_test, edges_train))"











definition edges_of_rel :: "relation \<Rightarrow> (entity \<times> entity) list \<Rightarrow> edge list" where
  "edges_of_rel rel pairs = map (\<lambda>(s, t). (rel, s, t)) pairs"

definition fraction_for :: "(relation \<times> rat) list \<Rightarrow> relation \<Rightarrow> rat" where
  "fraction_for fraction_test_relations rel =
     (case map_of fraction_test_relations rel of None \<Rightarrow> 0 | Some f \<Rightarrow> f)"

definition empty_split :: split where
  "empty_split = \<lparr>train = \<lparr>positive = [], negative = None\<rparr>,
                  test = \<lparr>positive = [], negative = None\<rparr>\<rparr>"

fun split_relations ::
  "generator \<Rightarrow> nat \<Rightarrow> (relation \<times> rat) list \<Rightarrow> relation list \<Rightarrow> split \<Rightarrow> py_error + split" where
  "split_relations st i ftr [] sp = Inr sp"
| "split_relations st i ftr (rel # rels) sp =
     (case map_of (grouped_edges st) rel of
        None \<Rightarrow> Inl KeyError
      | Some pairs \<Rightarrow>
          (let es = edges_of_rel rel pairs;
               fraction_test = fraction_for ftr rel;
               (edges_test, edges_train) = split_relation (number_splits st) i fraction_test es
           in split_relations st i ftr rels
                (sp\<lparr>test := (test sp)\<lparr>positive := set_update (positive (test sp)) edges_test\<rparr>,
                    train := (train sp)\<lparr>positive := set_update (positive (train sp)) edges_train\<rparr>\<rparr>)))"

fun split_folds :: "generator \<Rightarrow> (relation \<times> rat) list \<Rightarrow> nat list \<Rightarrow> py_error + generator" where
  "split_folds st ftr [] = Inr st"
| "split_folds st ftr (i # folds) =
     (case split_relations st i ftr (relations st) empty_split of
        Inl e \<Rightarrow> Inl e
      | Inr sp \<Rightarrow> split_folds (st\<lparr>graphs := dict_set (graphs st) i sp\<rparr>) ftr folds)"

definition effective_fractions :: "generator \<Rightarrow> rat \<Rightarrow> (relation \<times> rat) list \<Rightarrow> (relation \<times> rat) list" where
  "effective_fractions st fraction_test fraction_test_relations =
     (if length fraction_test_relations = 0
      then map (\<lambda>rel. (rel, fraction_test)) (relations st)
      else fraction_test_relations)"

definition split_graph :: "generator \<Rightarrow> rat \<Rightarrow> (relation \<times> rat) list \<Rightarrow> py_error + generator" where
  "split_graph st fraction_test fraction_test_relations =
     split_folds st (effective_fractions st fraction_test fraction_test_relations)
       [0..<number_splits st]"














lemma map_of_append_new:
  assumes "k \<notin> fst ` set d"
  shows "map_of (d @ [(k, v)]) k' = (if k' = k then Some v else map_of d k')"
proof -
  from assms have none: "map_of d k = None"
    by (simp add: map_of_eq_None_iff)
  show ?thesis
  proof (cases "k' = k")
    case True
    with none show ?thesis by (simp add: map_add_def)
  next
    case False
    then show ?thesis by (simp add: map_add_def split: option.splits)
  qed
qed

lemma map_of_replace_other:
  "k' \<noteq> k \<Longrightarrow>
   map_of (map (\<lambda>(k', v'). if k' = k then (k', v) else (k', v')) d) k' = map_of d k'"
  by (induction d) (simp_all add: split_beta)

lemma map_of_replace_same:
  "k \<in> fst ` set d \<Longrightarrow>
   map_of (map (\<lambda>(k', v'). if k' = k then (k', v) else (k', v')) d) k = Some v"
  by (induction d) (auto simp: split_beta)

lemma map_of_dict_set: "map_of (dict_set d k v) = (map_of d)(k \<mapsto> v)"
proof (rule ext)
  fix k'
  show "map_of (dict_set d k v) k' = ((map_of d)(k \<mapsto> v)) k'"
  proof (cases "k \<in> fst ` set d")
    case True
    then show ?thesis
      by (cases "k' = k") (simp_all add: dict_set_def map_of_replace_other map_of_replace_same)
  next
    case False
    then show ?thesis
      by (simp add: dict_set_def map_of_append_new del: map_of_append)
  qed
qed








text \<open>
  The scenario of the specification: relation \<^verbatim>\<open>friendOf\<close> with ten edges, a test
  fraction of 0.2, one split.
\<close>

definition friends :: "(entity \<times> entity) list" where
  "friends = [(''a'', ''e0''), (''a'', ''e1''), (''a'', ''e2''), (''a'', ''e3''), (''a'', ''e4''),
              (''a'', ''e5''), (''a'', ''e6''), (''a'', ''e7''), (''a'', ''e8''), (''a'', ''e9'')]"

definition friends_generator :: generator where
  "friends_generator = (new_generator 1)\<lparr>
     entities := [''a'', ''e0'', ''e1'', ''e2'', ''e3'', ''e4'', ''e5'', ''e6'', ''e7'', ''e8'', ''e9''],
     relations := [''friendOf''], edges := edges_of_rel ''friendOf'' friends,
     grouped_edges := [(''friendOf'', friends)]\<rparr>"

lemma friends_split_example:
  "split_graph friends_generator (1 / 5) [] = Inr (friends_generator\<lparr>graphs :=
     [(0, \<lparr>train = \<lparr>positive = edges_of_rel ''friendOf'' (drop 2 friends), negative = None\<rparr>,
           test = \<lparr>positive = edges_of_rel ''friendOf'' (take 2 friends), negative = None\<rparr>\<rparr>)]\<rparr>)"
  by code_simp


section \<open>find_inverses\<close>

text \<open>
  \<^verbatim>\<open>itertools.combinations(xs, 2)\<close>: the pairs of elements at positions \<open>i < j\<close>, in
  lexicographic order of the positions.
\<close>

fun combinations2 :: "'a list \<Rightarrow> ('a \<times> 'a) list" where
  "combinations2 [] = []"
| "combinations2 (x # xs) = map (Pair x) xs @ combinations2 xs"

text \<open>
  \<^verbatim>\<open>all((edge[1], edge[0]) in edges2 for edge in edges1)\<close>
\<close>

definition all_mirrored :: "(entity \<times> entity) list \<Rightarrow> (entity \<times> entity) list \<Rightarrow> bool" where
  "all_mirrored edges1 edges2 = list_all (\<lambda>edge. (snd edge, fst edge) \<in> set edges2) edges1"

text \<open>
  The first loop of \<^verbatim>\<open>find_inverses\<close>, over the combinations:
  \<^verbatim>\<open>
  edges1 = self.grouped_edges[combination[0]]
  edges2 = self.grouped_edges[combination[1]]
  is_inverse = all((edge[1], edge[0]) in edges2 for edge in edges1)
  is_inverse = is_inverse and all((edge[1], edge[0]) in edges1 for edge in edges2)
  if is_inverse:
      self.inverse_tuples.append((combination[0], combination[1]))
      self.inverses.add(combination[1])
  \<close>
\<close>

fun find_inverse_tuples :: "generator \<Rightarrow> (relation \<times> relation) list \<Rightarrow> py_error + generator" where
  "find_inverse_tuples st [] = Inr st"
| "find_inverse_tuples st (combination # rest) =
     (case map_of (grouped_edges st) (fst combination) of
        None \<Rightarrow> Inl KeyError
      | Some edges1 \<Rightarrow>
          (case map_of (grouped_edges st) (snd combination) of
             None \<Rightarrow> Inl KeyError
           | Some edges2 \<Rightarrow>
               (let is_inverse = all_mirrored edges1 edges2;
                    is_inverse = (is_inverse \<and> all_mirrored edges2 edges1)
                in find_inverse_tuples
                     (if is_inverse
                      then st\<lparr>inverse_tuples := inverse_tuples st @ [(fst combination, snd combination)],
                              inverses := set_add (snd combination) (inverses st)\<rparr>
                      else st)
                     rest)))"

text \<open>
  The truth value Python gives a tuple of two components: it is not empty, so it is true.
\<close>

definition tuple_truth :: "'a \<times> 'b \<Rightarrow> bool" where
  "tuple_truth p = True"

text \<open>
  The second loop:
  \<^verbatim>\<open>
  for r1 in self.relations:
      self.inverses_dict[r1] = set()
      for r2 in self.relations:
          if (r1, r2) or (r2, r1) in self.inverse_tuples:
              self.inverses_dict[r1].add(r2)
  \<close>
  \<^verbatim>\<open>in\<close> binds tighter than \<^verbatim>\<open>or\<close>: the condition is the truth of
  \<^verbatim>\<open>(r1, r2)\<close>, or the membership of \<^verbatim>\<open>(r2, r1)\<close>.
\<close>

definition inverse_partners :: "generator \<Rightarrow> relation \<Rightarrow> relation list" where
  "inverse_partners st r1 =
     fold (\<lambda>r2 partners.
             if tuple_truth (r1, r2) \<or> (r2, r1) \<in> set (inverse_tuples st)
             then set_add r2 partners else partners)
       (relations st) []"

definition fill_inverses_dict :: "generator \<Rightarrow> generator" where
  "fill_inverses_dict st =
     fold (\<lambda>r1 s. s\<lparr>inverses_dict := dict_set (inverses_dict s) r1 (inverse_partners s r1)\<rparr>)
       (relations st) st"

definition find_inverses :: "generator \<Rightarrow> py_error + generator" where
  "find_inverses st =
     (case find_inverse_tuples st (combinations2 (relations st)) of
        Inl e \<Rightarrow> Inl e
      | Inr st' \<Rightarrow> Inr (fill_inverses_dict st'))"

subsection \<open>Which pairs are recorded\<close>

definition rel_pairs :: "generator \<Rightarrow> relation \<Rightarrow> (entity \<times> entity) list" where
  "rel_pairs st r = (case map_of (grouped_edges st) r of None \<Rightarrow> [] | Some pairs \<Rightarrow> pairs)"

text \<open>
  Every \<open>(s, t)\<close> edge of \<open>r1\<close> has a matching \<open>(t, s)\<close> edge in \<open>r2\<close>, and every
  \<open>(s, t)\<close> edge of \<open>r2\<close> has a matching \<open>(t, s)\<close> edge in \<open>r1\<close>.
\<close>

definition full_mirror :: "generator \<Rightarrow> relation \<Rightarrow> relation \<Rightarrow> bool" where
  "full_mirror st r1 r2 \<longleftrightarrow>
     (\<forall>s t. (s, t) \<in> set (rel_pairs st r1) \<longrightarrow> (t, s) \<in> set (rel_pairs st r2)) \<and>
     (\<forall>s t. (s, t) \<in> set (rel_pairs st r2) \<longrightarrow> (t, s) \<in> set (rel_pairs st r1))"

lemma all_mirrored_iff:
  "all_mirrored edges1 edges2 \<longleftrightarrow> (\<forall>s t. (s, t) \<in> set edges1 \<longrightarrow> (t, s) \<in> set edges2)"
  by (auto simp: all_mirrored_def list_all_iff)

lemma combinations2_subset:
  "(a, b) \<in> set (combinations2 xs) \<Longrightarrow> a \<in> set xs \<and> b \<in> set xs"
  by (induction xs) auto

lemma combinations2_distinct:
  "distinct xs \<Longrightarrow> (a, b) \<in> set (combinations2 xs) \<Longrightarrow> a \<noteq> b"
  by (induction xs) (auto dest: combinations2_subset)

lemma combinations2_one_order:
  "distinct xs \<Longrightarrow> (a, b) \<in> set (combinations2 xs) \<Longrightarrow> (b, a) \<notin> set (combinations2 xs)"
  by (induction xs) (auto dest: combinations2_subset)

lemma combinations2_total:
  "a \<in> set xs \<Longrightarrow> b \<in> set xs \<Longrightarrow> a \<noteq> b \<Longrightarrow>
   (a, b) \<in> set (combinations2 xs) \<or> (b, a) \<in> set (combinations2 xs)"
  by (induction xs) auto

lemma find_inverse_tuples_result:
  assumes "\<forall>c \<in> set cs. map_of (grouped_edges st) (fst c) \<noteq> None \<and> map_of (grouped_edges st) (snd c) \<noteq> None"
  shows "\<exists>st'. find_inverse_tuples st cs = Inr st'
     \<and> inverse_tuples st' = inverse_tuples st @ filter (\<lambda>c. full_mirror st (fst c) (snd c)) cs
     \<and> relations st' = relations st \<and> grouped_edges st' = grouped_edges st"
  using assms
proof (induction cs arbitrary: st)
  case Nil
  then show ?case by simp
next
  case (Cons c cs)
  from Cons.prems obtain edges1 edges2 where
    e1: "map_of (grouped_edges st) (fst c) = Some edges1" and
    e2: "map_of (grouped_edges st) (snd c) = Some edges2"
    by auto
  define is_inverse where "is_inverse \<longleftrightarrow> all_mirrored edges1 edges2 \<and> all_mirrored edges2 edges1"
  have inv: "is_inverse \<longleftrightarrow> full_mirror st (fst c) (snd c)"
    by (simp add: is_inverse_def full_mirror_def rel_pairs_def e1 e2 all_mirrored_iff)
  define st1 where "st1 = (if is_inverse
      then st\<lparr>inverse_tuples := inverse_tuples st @ [(fst c, snd c)],
              inverses := set_add (snd c) (inverses st)\<rparr>
      else st)"
  have step: "find_inverse_tuples st (c # cs) = find_inverse_tuples st1 cs"
    by (simp add: e1 e2 st1_def is_inverse_def Let_def)
  have g1: "grouped_edges st1 = grouped_edges st" and r1: "relations st1 = relations st"
    by (simp_all add: st1_def)
  have t1: "inverse_tuples st1 = inverse_tuples st @ filter (\<lambda>c. full_mirror st (fst c) (snd c)) [c]"
    by (simp add: st1_def inv)
  have m1: "full_mirror st1 a b = full_mirror st a b" for a b
    by (simp add: full_mirror_def rel_pairs_def g1)
  from Cons.prems have "\<forall>c \<in> set cs. map_of (grouped_edges st1) (fst c) \<noteq> None
      \<and> map_of (grouped_edges st1) (snd c) \<noteq> None"
    by (simp add: g1)
  from Cons.IH [OF this] obtain st' where
    "find_inverse_tuples st1 cs = Inr st'"
    "inverse_tuples st' = inverse_tuples st1 @ filter (\<lambda>c. full_mirror st1 (fst c) (snd c)) cs"
    "relations st' = relations st1" "grouped_edges st' = grouped_edges st1"
    by blast
  then show ?case
    unfolding step by (simp add: t1 m1 g1 r1)
qed

lemma fill_inverses_dict_fold:
  "inverse_tuples (fold (\<lambda>r1 s. s\<lparr>inverses_dict := dict_set (inverses_dict s) r1 (inverse_partners s r1)\<rparr>) rs st)
     = inverse_tuples st"
  by (induction rs arbitrary: st) simp_all

lemma inverse_tuples_fill_inverses_dict:
  "inverse_tuples (fill_inverses_dict st) = inverse_tuples st"
  by (simp add: fill_inverses_dict_def fill_inverses_dict_fold)

text \<open>
  Claim C3. On a generator with no pair recorded yet (as the constructor leaves it) whose
  relations all have their group of edges, \<^verbatim>\<open>find_inverses\<close> returns, and a pair is
  recorded exactly when its two relations are distinct relations of the graph that mirror
  each other fully, in both directions. The pair is recorded once, in the orientation in
  which \<^verbatim>\<open>combinations\<close> yields it; no relation is recorded as its own inverse, and a
  match in one direction only is not recorded.
\<close>

theorem find_inverses_recorded:
  assumes fresh: "inverse_tuples st = []"
    and dist: "distinct (relations st)"
    and groups: "\<forall>r \<in> set (relations st). map_of (grouped_edges st) r \<noteq> None"
  shows "\<exists>st'. find_inverses st = Inr st'
     \<and> (\<forall>r1 r2. (r1, r2) \<in> set (inverse_tuples st') \<longleftrightarrow>
            (r1, r2) \<in> set (combinations2 (relations st)) \<and> full_mirror st r1 r2)
     \<and> (\<forall>r1 r2. (r1, r2) \<in> set (inverse_tuples st') \<or> (r2, r1) \<in> set (inverse_tuples st') \<longleftrightarrow>
            r1 \<in> set (relations st) \<and> r2 \<in> set (relations st) \<and> r1 \<noteq> r2 \<and> full_mirror st r1 r2)
     \<and> (\<forall>r. (r, r) \<notin> set (inverse_tuples st'))"
proof -
  let ?cs = "combinations2 (relations st)"
  have "\<forall>c \<in> set ?cs. map_of (grouped_edges st) (fst c) \<noteq> None \<and> map_of (grouped_edges st) (snd c) \<noteq> None"
  proof
    fix c assume "c \<in> set ?cs"
    then have "(fst c, snd c) \<in> set ?cs" by simp
    then have "fst c \<in> set (relations st) \<and> snd c \<in> set (relations st)"
      by (rule combinations2_subset)
    with groups show "map_of (grouped_edges st) (fst c) \<noteq> None \<and> map_of (grouped_edges st) (snd c) \<noteq> None"
      by blast
  qed
  from find_inverse_tuples_result [OF this] obtain st1 where
    r: "find_inverse_tuples st ?cs = Inr st1"
    and t: "inverse_tuples st1 = filter (\<lambda>c. full_mirror st (fst c) (snd c)) ?cs"
    by (auto simp: fresh)
  define st' where "st' = fill_inverses_dict st1"
  have res: "find_inverses st = Inr st'"
    by (simp add: find_inverses_def r st'_def)
  have mem: "(r1, r2) \<in> set (inverse_tuples st') \<longleftrightarrow> (r1, r2) \<in> set ?cs \<and> full_mirror st r1 r2" for r1 r2
    by (auto simp: st'_def inverse_tuples_fill_inverses_dict t)
  have sym: "full_mirror st r1 r2 \<longleftrightarrow> full_mirror st r2 r1" for r1 r2
    by (auto simp: full_mirror_def)
  have unordered: "(r1, r2) \<in> set (inverse_tuples st') \<or> (r2, r1) \<in> set (inverse_tuples st') \<longleftrightarrow>
      r1 \<in> set (relations st) \<and> r2 \<in> set (relations st) \<and> r1 \<noteq> r2 \<and> full_mirror st r1 r2" for r1 r2
  proof
    assume "(r1, r2) \<in> set (inverse_tuples st') \<or> (r2, r1) \<in> set (inverse_tuples st')"
    then show "r1 \<in> set (relations st) \<and> r2 \<in> set (relations st) \<and> r1 \<noteq> r2 \<and> full_mirror st r1 r2"
      unfolding mem using combinations2_subset [of _ _ "relations st"]
        combinations2_distinct [OF dist] sym by blast
  next
    assume "r1 \<in> set (relations st) \<and> r2 \<in> set (relations st) \<and> r1 \<noteq> r2 \<and> full_mirror st r1 r2"
    then show "(r1, r2) \<in> set (inverse_tuples st') \<or> (r2, r1) \<in> set (inverse_tuples st')"
      unfolding mem using combinations2_total [of r1 "relations st" r2] sym by blast
  qed
  have irrefl: "(r, r) \<notin> set (inverse_tuples st')" for r
    unfolding mem using combinations2_distinct [OF dist] by blast
  from res mem unordered irrefl show ?thesis
    by blast
qed

definition family :: generator where
  "family = (new_generator 1)\<lparr>
      relations := [''parentOf'', ''spouseOf'', ''childOf'', ''livesIn''],
      edges := [(''parentOf'', ''A'', ''B''), (''spouseOf'', ''A'', ''C''), (''spouseOf'', ''C'', ''A''),
         (''childOf'', ''B'', ''A''), (''livesIn'', ''A'', ''X''), (''livesIn'', ''B'', ''X'')],
      grouped_edges := [(''parentOf'', [(''A'', ''B'')]), (''spouseOf'', [(''A'', ''C''), (''C'', ''A'')]),
         (''childOf'', [(''B'', ''A'')]), (''livesIn'', [(''A'', ''X''), (''B'', ''X'')])]\<rparr>"

theorem find_inverses_recorded_witness:
  "inverse_tuples family = [] \<and> distinct (relations family)
   \<and> list_all (\<lambda>r. map_of (grouped_edges family) r \<noteq> None) (relations family)
   \<and> (\<exists>st'. find_inverses family = Inr st'
         \<and> (''parentOf'', ''childOf'') \<in> set (inverse_tuples st')
         \<and> (''childOf'', ''parentOf'') \<notin> set (inverse_tuples st')
         \<and> (''spouseOf'', ''spouseOf'') \<notin> set (inverse_tuples st')
         \<and> (''livesIn'', ''parentOf'') \<notin> set (inverse_tuples st')
         \<and> (''parentOf'', ''livesIn'') \<notin> set (inverse_tuples st'))"
proof -
  have fresh: "inverse_tuples family = []"
    by (simp add: family_def new_generator_def)
  have rels: "relations family = [''parentOf'', ''spouseOf'', ''childOf'', ''livesIn'']"
    by (simp add: family_def new_generator_def)
  have dist: "distinct (relations family)"
    by (simp add: rels)
  have ge: "grouped_edges family = [(''parentOf'', [(''A'', ''B'')]), (''spouseOf'', [(''A'', ''C''), (''C'', ''A'')]),
         (''childOf'', [(''B'', ''A'')]), (''livesIn'', [(''A'', ''X''), (''B'', ''X'')])]"
    by (simp add: family_def new_generator_def)
  have groups: "\<forall>r \<in> set (relations family). map_of (grouped_edges family) r \<noteq> None"
    by (simp add: rels ge)
  have m1: "full_mirror family ''parentOf'' ''childOf''"
    by (simp add: full_mirror_def rel_pairs_def ge)
  have m2: "\<not> full_mirror family ''livesIn'' ''parentOf''"
    by (auto simp: full_mirror_def rel_pairs_def ge)
  have m3: "\<not> full_mirror family ''parentOf'' ''livesIn''"
    by (auto simp: full_mirror_def rel_pairs_def ge)
  have c1: "(''parentOf'', ''childOf'') \<in> set (combinations2 (relations family))"
    and c2: "(''childOf'', ''parentOf'') \<notin> set (combinations2 (relations family))"
    by (simp_all add: rels)
  from find_inverses_recorded [OF fresh dist groups] obtain st' where
    "find_inverses family = Inr st'"
    and "\<forall>r1 r2. (r1, r2) \<in> set (inverse_tuples st') \<longleftrightarrow>
            (r1, r2) \<in> set (combinations2 (relations family)) \<and> full_mirror family r1 r2"
    and "\<forall>r. (r, r) \<notin> set (inverse_tuples st')"
    by blast
  with m1 m2 m3 c1 c2 have "find_inverses family = Inr st'
         \<and> (''parentOf'', ''childOf'') \<in> set (inverse_tuples st')
         \<and> (''childOf'', ''parentOf'') \<notin> set (inverse_tuples st')
         \<and> (''spouseOf'', ''spouseOf'') \<notin> set (inverse_tuples st')
         \<and> (''livesIn'', ''parentOf'') \<notin> set (inverse_tuples st')
         \<and> (''parentOf'', ''livesIn'') \<notin> set (inverse_tuples st')"
    by blast
  moreover have "list_all (\<lambda>r. map_of (grouped_edges family) r \<noteq> None) (relations family)"
    using groups by (simp add: list_all_iff)
  ultimately show ?thesis
    using fresh dist by blast
qed

definition lives_born :: generator where
  "lives_born = (new_generator 1)\<lparr>
      relations := [''livesIn'', ''bornIn''],
      edges := [(''livesIn'', ''A'', ''X''), (''livesIn'', ''B'', ''X''), (''bornIn'', ''X'', ''A'')],
      grouped_edges := [(''livesIn'', [(''A'', ''X''), (''B'', ''X'')]), (''bornIn'', [(''X'', ''A'')])]\<rparr>"

text \<open>
  Claim C2 says that \<open>r2\<close> is in \<^verbatim>\<open>inverses_dict[r1]\<close> exactly when \<open>(r1, r2)\<close> or
  \<open>(r2, r1)\<close> is in \<^verbatim>\<open>inverse_tuples\<close>. The code does not do that. In the scenario of
  the specification, \<^verbatim>\<open>livesIn\<close> and \<^verbatim>\<open>bornIn\<close> do not mirror each other and no
  pair is recorded; yet each relation's entry of \<^verbatim>\<open>inverses_dict\<close> holds every
  relation, itself included, because the condition of the second loop is always true.
\<close>

theorem inverses_dict_holds_every_relation:
  "(case find_inverses lives_born of
      Inl e \<Rightarrow> False
    | Inr st' \<Rightarrow>
        inverse_tuples st' = [] \<and>
        inverses_dict st' = [(''livesIn'', [''livesIn'', ''bornIn'']), (''bornIn'', [''livesIn'', ''bornIn''])])"
  by code_simp

section \<open>read: grouping and pruning\<close>

text \<open>
  \<^verbatim>\<open>if k not in d: d[k] = set()\<close> followed by \<^verbatim>\<open>d[k].add(v)\<close>.
\<close>

definition dict_set_add :: "('k \<times> 'v list) list \<Rightarrow> 'k \<Rightarrow> 'v \<Rightarrow> ('k \<times> 'v list) list" where
  "dict_set_add d k v =
     (case map_of d k of
        None \<Rightarrow> d @ [(k, [v])]
      | Some vs \<Rightarrow> dict_set d k (set_add v vs))"

definition group_edge :: "edge \<Rightarrow> generator \<Rightarrow> generator" where
  "group_edge edge st =
     st\<lparr>grouped_edges := dict_set_add (grouped_edges st) (fst edge) (fst (snd edge), snd (snd edge)),
        domains := dict_set_add (domains st) (fst edge) (fst (snd edge)),
        ranges := dict_set_add (ranges st) (fst edge) (snd (snd edge))\<rparr>"

definition group_edges :: "generator \<Rightarrow> generator" where
  "group_edges st = fold group_edge (edges st) (st\<lparr>grouped_edges := [], domains := [], ranges := []\<rparr>)"

text \<open>
  \<^verbatim>\<open>
  candidate_rels = [(rel, len(instances)) for rel, instances in self.grouped_edges.items()
                    if len(instances) >= min_num_rel]
  candidate_rels.sort(key=lambda x: x[1], reverse=True)
  \<close>
  Python's sort is stable, also with \<^verbatim>\<open>reverse=True\<close>: candidates of equal amount stay
  in the order of the dict. \<open>sort_key\<close> on the negated amount is such a sort.
\<close>

definition candidate_rels :: "generator \<Rightarrow> int \<Rightarrow> (relation \<times> nat) list" where
  "candidate_rels st min_num_rel =
     map (\<lambda>(rel, instances). (rel, length instances))
       (filter (\<lambda>(rel, instances). int (length instances) \<ge> min_num_rel) (grouped_edges st))"

definition sort_by_amount :: "(relation \<times> nat) list \<Rightarrow> (relation \<times> nat) list" where
  "sort_by_amount cs = sort_key (\<lambda>x. - int (snd x)) cs"

text \<open>
  \<^verbatim>\<open>
  for rel, amount in candidate_rels:
      accepted_rels.append(rel)
      accumulated_fraction += amount / len(self.edges)
      if accumulated_fraction >= reach_fraction:
          break
  \<close>
\<close>

fun accept_rels :: "(relation \<times> nat) list \<Rightarrow> nat \<Rightarrow> rat \<Rightarrow> rat \<Rightarrow> relation list \<Rightarrow> py_error + relation list" where
  "accept_rels [] num_edges reach_fraction accumulated_fraction accepted_rels = Inr accepted_rels"
| "accept_rels ((rel, amount) # rest) num_edges reach_fraction accumulated_fraction accepted_rels =
     (if num_edges = 0 then Inl ZeroDivisionError
      else
        (let accepted_rels = accepted_rels @ [rel];
             accumulated_fraction = accumulated_fraction + of_nat amount / of_nat num_edges
         in if accumulated_fraction \<ge> reach_fraction then Inr accepted_rels
            else accept_rels rest num_edges reach_fraction accumulated_fraction accepted_rels))"

text \<open>
  \<^verbatim>\<open>remove_rels\<close>: the edges are filtered first; then each relation is popped from
  \<^verbatim>\<open>grouped_edges\<close> and removed from the set of relations (\<^verbatim>\<open>set.remove\<close> raises
  \<^verbatim>\<open>KeyError\<close> for a missing element).
\<close>

fun remove_each :: "generator \<Rightarrow> relation list \<Rightarrow> py_error + generator" where
  "remove_each st [] = Inr st"
| "remove_each st (rel # rels) =
     (if rel \<in> set (relations st)
      then remove_each (st\<lparr>grouped_edges := dict_pop (grouped_edges st) rel,
                            relations := removeAll rel (relations st)\<rparr>) rels
      else Inl KeyError)"

definition remove_rels :: "generator \<Rightarrow> relation list \<Rightarrow> py_error + generator" where
  "remove_rels st removed_rels =
     remove_each (st\<lparr>edges := filter (\<lambda>e. fst e \<notin> set removed_rels) (edges st)\<rparr>) removed_rels"

definition prune :: "generator \<Rightarrow> int \<Rightarrow> rat \<Rightarrow> py_error + generator" where
  "prune st min_num_rel reach_fraction =
     (case accept_rels (sort_by_amount (candidate_rels st min_num_rel)) (length (edges st))
             reach_fraction 0 [] of
        Inl e \<Rightarrow> Inl e
      | Inr accepted_rels \<Rightarrow>
          remove_rels st (filter (\<lambda>rel. rel \<notin> set accepted_rels) (relations st)))"

text \<open>
  \<^verbatim>\<open>
  for edge in self.edges:
      if edge[1] not in self.entity_edges: self.entity_edges[edge[1]] = list()
      self.entity_edges[edge[1]].append(edge)
  \<close>
\<close>

definition dict_append :: "('k \<times> 'v list) list \<Rightarrow> 'k \<Rightarrow> 'v \<Rightarrow> ('k \<times> 'v list) list" where
  "dict_append d k v =
     (case map_of d k of
        None \<Rightarrow> d @ [(k, [v])]
      | Some vs \<Rightarrow> dict_set d k (vs @ [v]))"

definition store_entity_edges :: "generator \<Rightarrow> generator" where
  "store_entity_edges st =
     fold (\<lambda>edge s. s\<lparr>entity_edges := dict_append (entity_edges s) (fst (snd edge)) edge\<rparr>)
       (edges st) st"

text \<open>
  \<^verbatim>\<open>read\<close>, from what the reader returned (the keys of its entity dict, its set of
  relations, its set of edges). The html summary is output only.
\<close>

definition read ::
  "entity list \<times> relation list \<times> edge list \<Rightarrow> generator \<Rightarrow> int \<Rightarrow> rat \<Rightarrow> bool \<Rightarrow> py_error + generator" where
  "read reader_output st min_num_rel reach_fraction remove_inverses =
     (let st = group_edges (st\<lparr>entities := fst reader_output,
                                relations := fst (snd reader_output),
                                edges := snd (snd reader_output)\<rparr>)
      in case prune st min_num_rel reach_fraction of
           Inl e \<Rightarrow> Inl e
         | Inr st \<Rightarrow>
             (case find_inverses st of
                Inl e \<Rightarrow> Inl e
              | Inr st \<Rightarrow>
                  (case (if remove_inverses then remove_rels st (inverses st) else Inr st) of
                     Inl e \<Rightarrow> Inl e
                   | Inr st \<Rightarrow> Inr (store_entity_edges st))))"

subsection \<open>What group_edges builds\<close>














subsection \<open>The accepted relations are a prefix of the ranking\<close>





lemma accept_rels_Nil_any: "accept_rels [] n reach acc accepted = Inr accepted"
  by simp

subsection \<open>The ranking\<close>






subsection \<open>remove_rels\<close>



subsection \<open>Pruning keeps a prefix of the ranking\<close>












lemma map_fst_dict_set:
  "k \<in> fst ` set d \<Longrightarrow> map fst (dict_set d k v) = map fst d"
  by (simp add: dict_set_def split_beta)













section \<open>generate_negatives_random\<close>

text \<open>
  The search for a new source (or target) of one negative:
  \<^verbatim>\<open>
  attempts = 0
  found = False
  while not found and len(candidates_source) > 1 and attempts <= 20:
      if(attempts > 10):
          if(keep_dom_ran): candidates_source = list(self.domains[rel])
          else: candidates_source = list(self.entities.keys())
      attempts += 1
      source = sample(candidates_source, 1)[0]
      found = source != positive[1]
      if not found: source = None
  \<close>
  \<open>flat\<close> is the pool the loop switches to (or the \<^verbatim>\<open>KeyError\<close> of the lookup);
  \<^verbatim>\<open>sample\<close> raises \<^verbatim>\<open>ValueError\<close> on an empty list. The result is the new value
  (\<open>None\<close> when none was found), the candidate list as the loop left it, and the
  position of the next unread raw output of the generator: one is read per draw.
\<close>

function find_replacement ::
  "rng \<Rightarrow> nat \<Rightarrow> py_error + entity list \<Rightarrow> entity \<Rightarrow> entity list \<Rightarrow> nat
     \<Rightarrow> py_error + (entity option \<times> entity list \<times> nat)" where
  "find_replacement g k flat original candidates attempts =
     (if length candidates > 1 \<and> attempts \<le> 20 then
        (case (if attempts > 10 then flat else Inr candidates) of
           Inl e \<Rightarrow> Inl e
         | Inr candidates \<Rightarrow>
             if candidates = [] then Inl ValueError
             else (let drawn = sample1 g k candidates
                   in if drawn \<noteq> original then Inr (Some drawn, candidates, Suc k)
                      else find_replacement g (Suc k) flat original candidates (attempts + 1)))
      else Inr (None, candidates, k))"
  by pat_completeness auto
termination
  by (relation "measure (\<lambda>(g, k, flat, original, candidates, attempts). 21 - attempts)") auto

declare find_replacement.simps [simp del]

definition flat_sources :: "generator \<Rightarrow> relation \<Rightarrow> bool \<Rightarrow> py_error + entity list" where
  "flat_sources st rel keep_dom_ran =
     (if keep_dom_ran
      then (case map_of (domains st) rel of None \<Rightarrow> Inl KeyError | Some d \<Rightarrow> Inr d)
      else Inr (entities st))"

definition flat_targets :: "generator \<Rightarrow> relation \<Rightarrow> bool \<Rightarrow> py_error + entity list" where
  "flat_targets st rel keep_dom_ran =
     (if keep_dom_ran
      then (case map_of (ranges st) rel of None \<Rightarrow> Inl KeyError | Some r \<Rightarrow> Inr r)
      else Inr (entities st))"

text \<open>
  The candidate lists before the loop. An element of \<^verbatim>\<open>self.grouped_edges[rel]\<close> is a
  pair \<open>(source, target)\<close>; an element of \<^verbatim>\<open>self.edges\<close> is a triple
  \<open>(relation, source, target)\<close>, so that \<^verbatim>\<open>edge[0]\<close> is its relation and \<^verbatim>\<open>edge[1]\<close>
  its source. A list that is not needed is not built (\<open>[]\<close> here).
\<close>

definition initial_candidates ::
  "generator \<Rightarrow> relation \<Rightarrow> bool \<Rightarrow> bool \<Rightarrow> bool \<Rightarrow> bool \<Rightarrow> py_error + (entity list \<times> entity list)" where
  "initial_candidates st rel keep_dom_ran change_source change_target equal_probabilities =
     (case (if keep_dom_ran
            then (if change_source \<or> change_target
                  then (case map_of (grouped_edges st) rel of
                          None \<Rightarrow> Inl KeyError
                        | Some pairs \<Rightarrow>
                            Inr (if change_source then map fst pairs else [],
                                 if change_target then map snd pairs else []))
                  else Inr ([], []))
            else Inr (if change_source then map fst (edges st) else [],
                      if change_target then map (\<lambda>edge. fst (snd edge)) (edges st) else [])) of
        Inl e \<Rightarrow> Inl e
      | Inr (candidates_source, candidates_target) \<Rightarrow>
          if equal_probabilities then
            (case (if change_source
                   then (case map_of (domains st) rel of None \<Rightarrow> Inl KeyError | Some d \<Rightarrow> Inr d)
                   else Inr candidates_source) of
               Inl e \<Rightarrow> Inl e
             | Inr candidates_source \<Rightarrow>
                 (case (if change_target
                        then (case map_of (ranges st) rel of None \<Rightarrow> Inl KeyError | Some r \<Rightarrow> Inr r)
                        else Inr candidates_target) of
                    Inl e \<Rightarrow> Inl e
                  | Inr candidates_target \<Rightarrow> Inr (candidates_source, candidates_target)))
          else Inr (candidates_source, candidates_target))"

text \<open>
  The loop \<^verbatim>\<open>for _ in range(number_negatives)\<close>. The candidate lists are local
  variables of the function: what one negative's search made of them, the next one finds.
  A negative is appended unless a component that had to change is \<open>None\<close>.
\<close>

fun negatives_loop ::
  "rng \<Rightarrow> generator \<Rightarrow> edge \<Rightarrow> bool \<Rightarrow> bool \<Rightarrow> bool \<Rightarrow> nat \<Rightarrow> entity list \<Rightarrow> entity list \<Rightarrow> nat
     \<Rightarrow> edge list \<Rightarrow> py_error + (edge list \<times> nat)" where
  "negatives_loop g st pos keep_dom_ran change_source change_target 0
       candidates_source candidates_target k negatives = Inr (negatives, k)"
| "negatives_loop g st pos keep_dom_ran change_source change_target (Suc n)
       candidates_source candidates_target k negatives =
     (case (if change_source
            then find_replacement g k (flat_sources st (fst pos) keep_dom_ran)
                   (fst (snd pos)) candidates_source 0
            else Inr (Some (fst (snd pos)), candidates_source, k)) of
        Inl e \<Rightarrow> Inl e
      | Inr (source, candidates_source, k) \<Rightarrow>
          (case (if change_target
                 then find_replacement g k (flat_targets st (fst pos) keep_dom_ran)
                        (snd (snd pos)) candidates_target 0
                 else Inr (Some (snd (snd pos)), candidates_target, k)) of
             Inl e \<Rightarrow> Inl e
           | Inr (target, candidates_target, k) \<Rightarrow>
               negatives_loop g st pos keep_dom_ran change_source change_target n
                 candidates_source candidates_target k
                 (case (source, target) of
                    (Some s, Some t) \<Rightarrow> negatives @ [(fst pos, s, t)]
                  | _ \<Rightarrow> negatives)))"

definition generate_negatives_random ::
  "rng \<Rightarrow> nat \<Rightarrow> generator \<Rightarrow> edge \<Rightarrow> nat \<Rightarrow> bool \<Rightarrow> bool \<Rightarrow> bool \<Rightarrow> bool
     \<Rightarrow> py_error + (edge list \<times> nat)" where
  "generate_negatives_random g k st pos number_negatives keep_dom_ran change_source
       change_target equal_probabilities =
     (case initial_candidates st (fst pos) keep_dom_ran change_source change_target
             equal_probabilities of
        Inl e \<Rightarrow> Inl e
      | Inr (candidates_source, candidates_target) \<Rightarrow>
          negatives_loop g st pos keep_dom_ran change_source change_target number_negatives
            candidates_source candidates_target k [])"

section \<open>generate_negatives_PPR\<close>

text \<open>
  \<^verbatim>\<open>encode\<close> numbers the entities in the order of the keys of \<^verbatim>\<open>self.entities\<close>, which
  does not change afterwards: \<^verbatim>\<open>etoint[e]\<close> is the position of \<open>e\<close> among the entities
  and \<^verbatim>\<open>inttoe[i]\<close> the entity at position \<open>i\<close>.
\<close>

fun index_of :: "'a list \<Rightarrow> 'a \<Rightarrow> nat option" where
  "index_of [] x = None"
| "index_of (y # ys) x = (if y = x then Some 0 else map_option Suc (index_of ys x))"

definition etoint :: "generator \<Rightarrow> entity \<Rightarrow> py_error + nat" where
  "etoint st e = (case index_of (entities st) e of None \<Rightarrow> Inl KeyError | Some i \<Rightarrow> Inr i)"

text \<open>
  \<^verbatim>\<open>np.random.choice(n, size, p=probs)\<close> draws each index by inverting the cumulative
  distribution: the index is the number of entries of the normalised cumulative sums that
  are at most the uniform draw. With an empty \<open>probs\<close> it raises \<^verbatim>\<open>ValueError\<close>.
\<close>

fun cumsum :: "rat \<Rightarrow> rat list \<Rightarrow> rat list" where
  "cumsum acc [] = []"
| "cumsum acc (p # ps) = (acc + p) # cumsum (acc + p) ps"

definition choice_index :: "rng \<Rightarrow> nat \<Rightarrow> rat list \<Rightarrow> nat" where
  "choice_index g k probs =
     (let cdf = cumsum 0 probs;
          cdf = map (\<lambda>c. c / last cdf) cdf
      in length (takeWhile (\<lambda>c. c \<le> random g k) cdf))"

definition choice :: "rng \<Rightarrow> nat \<Rightarrow> nat \<Rightarrow> rat list \<Rightarrow> py_error + nat list" where
  "choice g k size_drawn probs =
     (if probs = [] then Inl ValueError
      else Inr (map (\<lambda>i. choice_index g (k + i) probs) [0..<size_drawn]))"

text \<open>
  \<^verbatim>\<open>
  sources = [(self.inttoe[i], rank) for i, rank in enumerate(source_ranks)
             if rank > 0 and self.inttoe[i] in self.domains[rel]]
  \<close>
  \<^verbatim>\<open>self.domains[rel]\<close> is looked up only for a positive rank.
\<close>

definition ranked_pool ::
  "generator \<Rightarrow> rat list \<Rightarrow> (relation \<times> entity list) list \<Rightarrow> relation
     \<Rightarrow> py_error + (entity \<times> rat) list" where
  "ranked_pool st entity_ranks scope rel =
     (if \<exists>rank \<in> set entity_ranks. rank > 0
      then (case map_of scope rel of
              None \<Rightarrow> Inl KeyError
            | Some allowed \<Rightarrow>
                Inr (map (\<lambda>(i, rank). (entities st ! i, rank))
                      (filter (\<lambda>(i, rank). rank > 0 \<and> entities st ! i \<in> set allowed)
                         (zip [0..<length entity_ranks] entity_ranks))))
      else Inr [])"

definition normalise :: "rat list \<Rightarrow> rat list" where
  "normalise probs = map (\<lambda>p. p / sum_list probs) probs"

definition generate_negatives_PPR ::
  "rng \<Rightarrow> nat \<Rightarrow> generator \<Rightarrow> edge \<Rightarrow> nat \<Rightarrow> py_error + (edge list \<times> nat)" where
  "generate_negatives_PPR g k st pos number_negatives =
     (case ranks st of
        None \<Rightarrow> Inl AttributeError
      | Some rank_matrix \<Rightarrow>
     (case etoint st (fst (snd pos)) of Inl e \<Rightarrow> Inl e | Inr source_ind \<Rightarrow>
     (case etoint st (snd (snd pos)) of Inl e \<Rightarrow> Inl e | Inr target_ind \<Rightarrow>
     (if \<not> (source_ind < length rank_matrix \<and> target_ind < length rank_matrix) then Inl IndexError
      else
     (case ranked_pool st (rank_matrix ! source_ind) (domains st) (fst pos) of
        Inl e \<Rightarrow> Inl e | Inr sources \<Rightarrow>
     (case ranked_pool st (rank_matrix ! target_ind) (ranges st) (fst pos) of
        Inl e \<Rightarrow> Inl e | Inr targets \<Rightarrow>
     (let sources_probs = normalise (map snd sources);
          targets_probs = normalise (map snd targets)
      in
     (case choice g k number_negatives sources_probs of
        Inl e \<Rightarrow> Inl e | Inr ids_sources \<Rightarrow>
     (case choice g (k + number_negatives) number_negatives targets_probs of
        Inl e \<Rightarrow> Inl e | Inr ids_targets \<Rightarrow>
          Inr (map (\<lambda>i. (fst pos, fst (sources ! (ids_sources ! i)), fst (targets ! (ids_targets ! i))))
                 [0..<number_negatives],
               k + 2 * number_negatives))))))))))"

section \<open>generate_negatives\<close>

text \<open>The \<^verbatim>\<open>if\<close>/\<^verbatim>\<open>elif\<close> chain over the strategy names; it has no \<^verbatim>\<open>else\<close>, so that an
  unknown name leaves \<^verbatim>\<open>new_negatives\<close> unbound and its first use raises.\<close>

definition negatives_by_strategy ::
  "rng \<Rightarrow> nat \<Rightarrow> generator \<Rightarrow> edge \<Rightarrow> nat \<Rightarrow> string \<Rightarrow> py_error + (edge list \<times> nat)" where
  "negatives_by_strategy g k st pos num_negatives strategy =
     (if strategy = ''change_source''
        then generate_negatives_random g k st pos num_negatives True True False False
      else if strategy = ''change_target''
        then generate_negatives_random g k st pos num_negatives True False True False
      else if strategy = ''change_both''
        then generate_negatives_random g k st pos num_negatives True True True False
      else if strategy = ''change_source_random''
        then generate_negatives_random g k st pos num_negatives False True False False
      else if strategy = ''change_target_random''
        then generate_negatives_random g k st pos num_negatives False False True False
      else if strategy = ''change_both_random''
        then generate_negatives_random g k st pos num_negatives False True True False
      else if strategy = ''PPR''
        then generate_negatives_PPR g k st pos num_negatives
      else Inl UnboundLocalError)"

text \<open>
  The loop over the positives of the bucket. It threads the list of negatives, the set
  \<^verbatim>\<open>ignored_rels_positives\<close> and the position in the generator's raw outputs.
\<close>

fun negatives_of_positives ::
  "rng \<Rightarrow> generator \<Rightarrow> rat \<Rightarrow> string \<Rightarrow> bool \<Rightarrow> edge list \<Rightarrow> relation list \<Rightarrow> nat \<Rightarrow> edge list
     \<Rightarrow> py_error + (edge list \<times> relation list \<times> nat)" where
  "negatives_of_positives g st negatives_factor strategy reject_rel_after_failure []
       ignored k negatives = Inr (negatives, ignored, k)"
| "negatives_of_positives g st negatives_factor strategy reject_rel_after_failure (pos # rest)
       ignored k negatives =
     (if fst pos \<notin> set ignored then
        (case num_negatives_for g k negatives_factor of
           (num_negatives, k) \<Rightarrow>
             (case negatives_by_strategy g k st pos num_negatives strategy of
                Inl e \<Rightarrow> Inl e
              | Inr (new_negatives, k) \<Rightarrow>
                  if length new_negatives > 0
                  then negatives_of_positives g st negatives_factor strategy reject_rel_after_failure
                         rest ignored k (negatives @ new_negatives)
                  else if reject_rel_after_failure
                  then negatives_of_positives g st negatives_factor strategy reject_rel_after_failure
                         rest (set_add (fst pos) ignored) k negatives
                  else negatives_of_positives g st negatives_factor strategy reject_rel_after_failure
                         rest ignored k negatives))
      else negatives_of_positives g st negatives_factor strategy reject_rel_after_failure
             rest ignored k negatives)"

text \<open>\<^verbatim>\<open>self.graphs[split][train_test]\<close>, read and written.\<close>

definition get_bucket :: "split \<Rightarrow> string \<Rightarrow> py_error + bucket" where
  "get_bucket sp train_test =
     (if train_test = ''train'' then Inr (train sp)
      else if train_test = ''test'' then Inr (test sp)
      else Inl KeyError)"

definition put_bucket :: "split \<Rightarrow> string \<Rightarrow> bucket \<Rightarrow> split" where
  "put_bucket sp train_test b =
     (if train_test = ''train'' then sp\<lparr>train := b\<rparr>
      else if train_test = ''test'' then sp\<lparr>test := b\<rparr>
      else sp)"

definition set_negative :: "generator \<Rightarrow> nat \<Rightarrow> string \<Rightarrow> edge list \<Rightarrow> py_error + generator" where
  "set_negative st split_id train_test negatives =
     (case map_of (graphs st) split_id of
        None \<Rightarrow> Inl KeyError
      | Some sp \<Rightarrow>
          (case get_bucket sp train_test of
             Inl e \<Rightarrow> Inl e
           | Inr b \<Rightarrow>
               Inr (st\<lparr>graphs := dict_set (graphs st) split_id
                         (put_bucket sp train_test (b\<lparr>negative := Some negatives\<rparr>))\<rparr>)))"

text \<open>
  \<^verbatim>\<open>
  edges = self.graphs[split][train_test]["positive"]
  if clean_before:
      self.graphs[split][train_test]["negative"] = set()
  negatives = list()
  for positive in edges: ...
  self.graphs[split][train_test]["negative"] = negatives
  \<close>
\<close>

definition generate_negatives ::
  "rng \<Rightarrow> nat \<Rightarrow> generator \<Rightarrow> nat \<Rightarrow> string \<Rightarrow> rat \<Rightarrow> string \<Rightarrow> bool \<Rightarrow> bool
     \<Rightarrow> py_error + (generator \<times> nat)" where
  "generate_negatives g k st split_id train_test negatives_factor strategy clean_before
       reject_rel_after_failure =
     (case map_of (graphs st) split_id of
        None \<Rightarrow> Inl KeyError
      | Some sp \<Rightarrow>
     (case get_bucket sp train_test of
        Inl e \<Rightarrow> Inl e
      | Inr b \<Rightarrow>
     (case (if clean_before then set_negative st split_id train_test [] else Inr st) of
        Inl e \<Rightarrow> Inl e
      | Inr st \<Rightarrow>
     (case negatives_of_positives g st negatives_factor strategy reject_rel_after_failure
             (positive b) (ignored_rels_positives st) k [] of
        Inl e \<Rightarrow> Inl e
      | Inr (negatives, ignored, k) \<Rightarrow>
          (case set_negative (st\<lparr>ignored_rels_positives := ignored\<rparr>) split_id train_test negatives of
             Inl e \<Rightarrow> Inl e
           | Inr st \<Rightarrow> Inr (st, k))))))"

section \<open>compute_PPR\<close>

text \<open>
  \<^verbatim>\<open>
  entity_count = dict()
  for edge in edges:
      target = edge[2]
      entity_count[target] = entity_count.get(target, 0) + 1
  \<close>
\<close>

definition count_targets :: "edge list \<Rightarrow> (entity \<times> nat) list" where
  "count_targets es =
     fold (\<lambda>edge entity_count.
             dict_set entity_count (snd (snd edge))
               ((case map_of entity_count (snd (snd edge)) of None \<Rightarrow> 0 | Some c \<Rightarrow> c) + 1))
       es []"

text \<open>
  \<^verbatim>\<open>
  for target, frequency in entity_count.items():
      target_ind = self.etoint[target]
      matrix_movements[source_ind, target_ind] = frequency / len(edges)
  \<close>
  on one row. No entry is assigned, and nothing is divided, when the entity has no
  outward edge.
\<close>

fun assign_row :: "generator \<Rightarrow> nat \<Rightarrow> (entity \<times> nat) list \<Rightarrow> rat list \<Rightarrow> py_error + rat list" where
  "assign_row st num_edges [] row = Inr row"
| "assign_row st num_edges ((target, frequency) # rest) row =
     (case etoint st target of
        Inl e \<Rightarrow> Inl e
      | Inr target_ind \<Rightarrow>
          if num_edges = 0 then Inl ZeroDivisionError
          else assign_row st num_edges rest (row[target_ind := of_nat frequency / of_nat num_edges]))"

text \<open>
  \<^verbatim>\<open>matrix_movements = np.empty([len(self.entities), len(self.entities)])\<close> allocates the
  matrix without initialising it: its entries are whatever the memory holds. \<open>memory i j\<close>
  stands for that content. The loop over the entities then assigns some of the entries.
\<close>

definition movement_row :: "generator \<Rightarrow> (nat \<Rightarrow> nat \<Rightarrow> rat) \<Rightarrow> nat \<Rightarrow> py_error + rat list" where
  "movement_row st memory source_ind =
     (let es = (case map_of (entity_edges st) (entities st ! source_ind) of
                  None \<Rightarrow> [] | Some es \<Rightarrow> es)
      in assign_row st (length es) (count_targets es)
           (map (memory source_ind) [0..<length (entities st)]))"

fun collect_rows :: "(nat \<Rightarrow> py_error + rat list) \<Rightarrow> nat list \<Rightarrow> py_error + rat list list" where
  "collect_rows f [] = Inr []"
| "collect_rows f (i # rest) =
     (case f i of
        Inl e \<Rightarrow> Inl e
      | Inr row \<Rightarrow> (case collect_rows f rest of Inl e \<Rightarrow> Inl e | Inr rows \<Rightarrow> Inr (row # rows)))"

definition matrix_movements :: "generator \<Rightarrow> (nat \<Rightarrow> nat \<Rightarrow> rat) \<Rightarrow> py_error + rat list list" where
  "matrix_movements st memory = collect_rows (movement_row st memory) [0..<length (entities st)]"

text \<open>Matrices as lists of rows: \<^verbatim>\<open>np.identity\<close>, \<^verbatim>\<open>np.matmul\<close>, and one step
  \<^verbatim>\<open>ranks = (1 - alpha) * np.matmul(ranks, matrix_movements) + alpha * initial_distribution\<close>.\<close>

definition identity_matrix :: "nat \<Rightarrow> rat list list" where
  "identity_matrix n = map (\<lambda>i. map (\<lambda>j. if i = j then 1 else 0) [0..<n]) [0..<n]"

definition matmul :: "rat list list \<Rightarrow> rat list list \<Rightarrow> rat list list" where
  "matmul a b =
     map (\<lambda>row. map (\<lambda>j. sum_list (map (\<lambda>l. row ! l * (b ! l ! j)) [0..<length b]))
                   [0..<length b]) a"

definition ppr_step :: "rat \<Rightarrow> rat list list \<Rightarrow> rat list list \<Rightarrow> rat list list" where
  "ppr_step alpha m rank_matrix =
     map2 (\<lambda>row_r row_i. map2 (\<lambda>x y. (1 - alpha) * x + alpha * y) row_r row_i)
       (matmul rank_matrix m) (identity_matrix (length m))"

text \<open>Python's \<^verbatim>\<open>round\<close>: to the nearest integer, a tie to the even one.\<close>

definition py_round :: "rat \<Rightarrow> int" where
  "py_round x =
     (let f = \<lfloor>x\<rfloor>; d = x - of_int f
      in if d < 1 / 2 then f else if d > 1 / 2 then f + 1 else if even f then f else f + 1)"

definition compute_PPR ::
  "generator \<Rightarrow> (nat \<Rightarrow> nat \<Rightarrow> rat) \<Rightarrow> nat option \<Rightarrow> rat \<Rightarrow> py_error + generator" where
  "compute_PPR st memory steps alpha =
     (case matrix_movements st memory of
        Inl e \<Rightarrow> Inl e
      | Inr m \<Rightarrow>
          (case (case steps of
                   None \<Rightarrow> if alpha = 0 then Inl ZeroDivisionError
                            else Inr (nat (py_round (1 / alpha)))
                 | Some s \<Rightarrow> Inr s) of
             Inl e \<Rightarrow> Inl e
           | Inr steps \<Rightarrow>
               Inr (st\<lparr>ranks := Some ((ppr_step alpha m ^^ steps)
                                         (identity_matrix (length (entities st))))\<rparr>)))"

lemma random_code [code]: "random g k = of_int (int (g k) mod 2 ^ 53) / 2 ^ 53"
proof -
  have "int (g k mod 2 ^ 53) = int (g k) mod 2 ^ 53"
    by (simp add: zmod_int)
  then have "(of_nat (g k mod 2 ^ 53) :: rat) = of_int (int (g k) mod 2 ^ 53)"
    by (metis of_int_of_nat_eq)
  then show ?thesis
    by (simp only: random_def)
qed

section \<open>The reader and main\<close>

text \<open>
  \<^verbatim>\<open>SimpleTriplesReader.read\<close> on the lines of the input file, each already split into
  its three fields (source, relation, target): a line is kept when \<^verbatim>\<open>random() < prob\<close>.
  The result is the keys of the entity dict, the set of relations and the set of edges.
\<close>

fun read_lines ::
  "rng \<Rightarrow> nat \<Rightarrow> rat \<Rightarrow> (entity \<times> relation \<times> entity) list
     \<Rightarrow> entity list \<times> relation list \<times> edge list
     \<Rightarrow> (entity list \<times> relation list \<times> edge list) \<times> nat" where
  "read_lines g k prob [] acc = (acc, k)"
| "read_lines g k prob ((source, relationship, target) # rest) (ents, rels, es) =
     (if random g k < prob
      then read_lines g (Suc k) prob rest
             (set_add target (set_add source ents),
              set_add relationship rels,
              set_add (relationship, source, target) es)
      else read_lines g (Suc k) prob rest (ents, rels, es))"

text \<open>The configuration constants at the top of the module that the core reads.\<close>

record config =
  GRAPH_FRACTION :: rat
  GENERATE_NEGATIVES_TRAINING :: bool
  REMOVE_INVERSES :: bool
  MIN_NUM_REL :: int
  REACH_FRACTION :: rat
  TESTING_FRACTION :: rat
  NUMBER_NEGATIVES :: rat
  NEGATIVES_STRATEGY :: string
  COMPUTE_PPR :: bool

text \<open>
  \<^verbatim>\<open>main\<close>, up to the export of the files. Its inputs besides the configuration are the
  lines of the input file, the raw outputs of the random generator, and the content of
  the memory that \<^verbatim>\<open>np.empty\<close> hands out.
\<close>

definition main ::
  "config \<Rightarrow> (entity \<times> relation \<times> entity) list \<Rightarrow> rng \<Rightarrow> (nat \<Rightarrow> nat \<Rightarrow> rat) \<Rightarrow> py_error + generator" where
  "main cfg file_lines g memory =
     (case read_lines g 0 (GRAPH_FRACTION cfg) file_lines ([], [], []) of
        (reader_output, k) \<Rightarrow>
     (case read reader_output (new_generator 1) (MIN_NUM_REL cfg) (REACH_FRACTION cfg)
             (REMOVE_INVERSES cfg) of
        Inl e \<Rightarrow> Inl e | Inr generator \<Rightarrow>
     (case (if COMPUTE_PPR cfg then compute_PPR generator memory (Some 5) (2 / 100)
            else Inr generator) of
        Inl e \<Rightarrow> Inl e | Inr generator \<Rightarrow>
     (case split_graph generator (TESTING_FRACTION cfg) [] of
        Inl e \<Rightarrow> Inl e | Inr generator \<Rightarrow>
     (case generate_negatives g k generator 0 ''test'' (NUMBER_NEGATIVES cfg)
             (NEGATIVES_STRATEGY cfg) True False of
        Inl e \<Rightarrow> Inl e | Inr (generator, k) \<Rightarrow>
     (case (if GENERATE_NEGATIVES_TRAINING cfg
            then generate_negatives g k generator 0 ''train'' (NUMBER_NEGATIVES cfg)
                   (NEGATIVES_STRATEGY cfg) True False
            else Inr (generator, k)) of
        Inl e \<Rightarrow> Inl e | Inr (generator, k) \<Rightarrow> Inr generator))))))"

subsection \<open>The negatives of a bucket are replaced\<close>

lemma flat_graphs:
  "flat_sources (st\<lparr>graphs := G\<rparr>) rel keep = flat_sources st rel keep"
  "flat_targets (st\<lparr>graphs := G\<rparr>) rel keep = flat_targets st rel keep"
  by (simp_all add: flat_sources_def flat_targets_def)

lemma negatives_loop_graphs:
  "negatives_loop g (st\<lparr>graphs := G\<rparr>) pos keep cs ct n c_s c_t k negs
     = negatives_loop g st pos keep cs ct n c_s c_t k negs"
  by (induction n arbitrary: c_s c_t k negs)
     (simp_all add: flat_graphs cong: sum.case_cong prod.case_cong if_cong)

lemma generate_negatives_random_graphs:
  "generate_negatives_random g k (st\<lparr>graphs := G\<rparr>) pos n keep cs ct eq
     = generate_negatives_random g k st pos n keep cs ct eq"
  by (simp add: generate_negatives_random_def initial_candidates_def negatives_loop_graphs
      cong: sum.case_cong prod.case_cong if_cong)

lemma etoint_graphs: "etoint (st\<lparr>graphs := G\<rparr>) e = etoint st e"
  by (simp add: etoint_def)

lemma ranked_pool_graphs: "ranked_pool (st\<lparr>graphs := G\<rparr>) rs scope rel = ranked_pool st rs scope rel"
  by (simp add: ranked_pool_def cong: option.case_cong)

lemma generate_negatives_PPR_graphs:
  "generate_negatives_PPR g k (st\<lparr>graphs := G\<rparr>) pos n = generate_negatives_PPR g k st pos n"
  by (simp add: generate_negatives_PPR_def etoint_graphs ranked_pool_graphs
      cong: option.case_cong sum.case_cong if_cong)

lemma negatives_by_strategy_graphs:
  "negatives_by_strategy g k (st\<lparr>graphs := G\<rparr>) pos n strategy
     = negatives_by_strategy g k st pos n strategy"
  by (simp add: negatives_by_strategy_def generate_negatives_random_graphs
      generate_negatives_PPR_graphs)

lemma negatives_of_positives_graphs:
  "negatives_of_positives g (st\<lparr>graphs := G\<rparr>) f strategy rej ps ign k negs
     = negatives_of_positives g st f strategy rej ps ign k negs"
proof (induction ps arbitrary: ign k negs rej)
  case Nil
  then show ?case by simp
next
  case (Cons p ps)
  obtain n k1 where nn: "num_negatives_for g k f = (n, k1)"
    by (cases "num_negatives_for g k f")
  show ?case
  proof (cases "negatives_by_strategy g k1 st p n strategy")
    case (Inl e)
    then show ?thesis
      by (simp add: nn negatives_by_strategy_graphs Cons.IH)
  next
    case (Inr r)
    obtain new k2 where "r = (new, k2)" by (cases r)
    with Inr show ?thesis
      by (simp add: nn negatives_by_strategy_graphs Cons.IH)
  qed
qed

lemma dict_set_dict_set: "dict_set (dict_set d k v) k w = dict_set d k w"
proof (cases "k \<in> fst ` set d")
  case True
  then have "map fst (dict_set d k v) = map fst d"
    by (rule map_fst_dict_set)
  then have "set (map fst (dict_set d k v)) = set (map fst d)"
    by simp
  with True have k': "k \<in> fst ` set (dict_set d k v)"
    by simp
  have "dict_set (dict_set d k v) k w
      = map (\<lambda>(k', v'). if k' = k then (k', w) else (k', v')) (dict_set d k v)"
    using k' by (simp add: dict_set_def)
  also have "\<dots> = map (\<lambda>(k', v'). if k' = k then (k', w) else (k', v'))
      (map (\<lambda>(k', v'). if k' = k then (k', v) else (k', v')) d)"
    using True by (simp add: dict_set_def)
  also have "\<dots> = map (\<lambda>(k', v'). if k' = k then (k', w) else (k', v')) d"
    by (induction d) (auto simp: split_beta)
  also have "\<dots> = dict_set d k w"
    using True by (simp add: dict_set_def)
  finally show ?thesis .
next
  case False
  then have "map (\<lambda>(k', v'). if k' = k then (k', w) else (k', v')) d = d"
    by (induction d) (auto simp: split_beta)
  with False show ?thesis
    by (simp add: dict_set_def)
qed

lemma get_put_bucket:
  "get_bucket sp tt = Inr b \<Longrightarrow> get_bucket (put_bucket sp tt b') tt = Inr b'"
  by (auto simp: get_bucket_def put_bucket_def split: if_splits)

lemma put_put_bucket: "put_bucket (put_bucket sp tt b') tt b'' = put_bucket sp tt b''"
  by (simp add: put_bucket_def)

lemma set_negative_result:
  assumes "map_of (graphs st) split_id = Some sp" and "get_bucket sp tt = Inr b"
  shows "set_negative st split_id tt negs =
     Inr (st\<lparr>graphs := dict_set (graphs st) split_id (put_bucket sp tt (b\<lparr>negative := Some negs\<rparr>))\<rparr>)"
  using assms by (simp add: set_negative_def)

text \<open>The generator with the negatives of one bucket replaced by \<open>old\<close> (no negatives
  at all when \<open>old\<close> is \<open>None\<close>).\<close>

definition with_negative :: "generator \<Rightarrow> nat \<Rightarrow> string \<Rightarrow> edge list option \<Rightarrow> generator" where
  "with_negative st split_id train_test old =
     (case map_of (graphs st) split_id of
        None \<Rightarrow> st
      | Some sp \<Rightarrow>
          (case get_bucket sp train_test of
             Inl e \<Rightarrow> st
           | Inr b \<Rightarrow>
               st\<lparr>graphs := dict_set (graphs st) split_id
                     (put_bucket sp train_test (b\<lparr>negative := old\<rparr>))\<rparr>))"

text \<open>What the call leaves, in terms of the generator before the call.\<close>

definition after_negatives ::
  "rng \<Rightarrow> nat \<Rightarrow> generator \<Rightarrow> nat \<Rightarrow> string \<Rightarrow> rat \<Rightarrow> string \<Rightarrow> bool \<Rightarrow> split \<Rightarrow> bucket
     \<Rightarrow> py_error + (generator \<times> nat)" where
  "after_negatives g k st split_id tt f strategy rej sp b =
     (case negatives_of_positives g st f strategy rej (positive b) (ignored_rels_positives st) k [] of
        Inl e \<Rightarrow> Inl e
      | Inr (negs, ign, k') \<Rightarrow>
          Inr (st\<lparr>graphs := dict_set (graphs st) split_id (put_bucket sp tt (b\<lparr>negative := Some negs\<rparr>)),
                  ignored_rels_positives := ign\<rparr>, k'))"

lemma generate_negatives_after:
  assumes sp: "map_of (graphs st) split_id = Some sp" and b: "get_bucket sp tt = Inr b"
  shows "generate_negatives g k st split_id tt f strategy clean_before rej
     = after_negatives g k st split_id tt f strategy rej sp b"
proof (cases clean_before)
  case False
  show ?thesis
  proof (cases "negatives_of_positives g st f strategy rej (positive b) (ignored_rels_positives st) k []")
    case (Inl e)
    with False sp b show ?thesis
      by (simp add: generate_negatives_def after_negatives_def)
  next
    case (Inr r)
    obtain negs ign k' where r: "r = (negs, ign, k')" by (cases r)
    have "set_negative (st\<lparr>ignored_rels_positives := ign\<rparr>) split_id tt negs =
        Inr (st\<lparr>ignored_rels_positives := ign,
               graphs := dict_set (graphs st) split_id (put_bucket sp tt (b\<lparr>negative := Some negs\<rparr>))\<rparr>)"
      using sp b by (simp add: set_negative_def)
    with False sp b Inr r show ?thesis
      by (simp add: generate_negatives_def after_negatives_def)
  qed
next
  case True
  define sp1 where "sp1 = put_bucket sp tt (b\<lparr>negative := Some []\<rparr>)"
  define st1 where "st1 = st\<lparr>graphs := dict_set (graphs st) split_id sp1\<rparr>"
  have clean: "set_negative st split_id tt [] = Inr st1"
    using sp b by (simp add: set_negative_def st1_def sp1_def)
  have sp1: "map_of (graphs st1) split_id = Some sp1"
    by (simp add: st1_def map_of_dict_set)
  have b1: "get_bucket sp1 tt = Inr (b\<lparr>negative := Some []\<rparr>)"
    unfolding sp1_def using b by (rule get_put_bucket)
  have loop: "negatives_of_positives g st1 f strategy rej ps ign k negs
      = negatives_of_positives g st f strategy rej ps ign k negs" for ps ign k negs
    unfolding st1_def by (rule negatives_of_positives_graphs)
  show ?thesis
  proof (cases "negatives_of_positives g st f strategy rej (positive b) (ignored_rels_positives st) k []")
    case (Inl e)
    with True sp b clean show ?thesis
      by (simp add: generate_negatives_def after_negatives_def negatives_of_positives_graphs st1_def)
  next
    case (Inr r)
    obtain negs ign k' where r: "r = (negs, ign, k')" by (cases r)
    have "set_negative (st1\<lparr>ignored_rels_positives := ign\<rparr>) split_id tt negs =
        Inr (st\<lparr>graphs := dict_set (graphs st) split_id (put_bucket sp tt (b\<lparr>negative := Some negs\<rparr>)),
                  ignored_rels_positives := ign\<rparr>)"
      using sp1 b1
      by (simp add: set_negative_def st1_def sp1_def dict_set_dict_set put_put_bucket)
    with True sp b clean Inr r show ?thesis
      by (simp add: generate_negatives_def after_negatives_def negatives_of_positives_graphs st1_def)
  qed
qed

lemma with_negative_bucket:
  assumes "map_of (graphs st) split_id = Some sp" and "get_bucket sp tt = Inr b"
  shows "with_negative st split_id tt old =
     st\<lparr>graphs := dict_set (graphs st) split_id (put_bucket sp tt (b\<lparr>negative := old\<rparr>))\<rparr>"
  using assms by (simp add: with_negative_def)

lemma after_negatives_with_negative:
  assumes sp: "map_of (graphs st) split_id = Some sp" and b: "get_bucket sp tt = Inr b"
  shows "generate_negatives g k (with_negative st split_id tt old) split_id tt f strategy cb rej
     = after_negatives g k st split_id tt f strategy rej sp b"
proof -
  define sp_o where "sp_o = put_bucket sp tt (b\<lparr>negative := old\<rparr>)"
  define st_o where "st_o = st\<lparr>graphs := dict_set (graphs st) split_id sp_o\<rparr>"
  have w: "with_negative st split_id tt old = st_o"
    unfolding st_o_def sp_o_def using sp b by (rule with_negative_bucket)
  have sp_o: "map_of (graphs st_o) split_id = Some sp_o"
    by (simp add: st_o_def map_of_dict_set)
  have b_o: "get_bucket sp_o tt = Inr (b\<lparr>negative := old\<rparr>)"
    unfolding sp_o_def using b by (rule get_put_bucket)
  have "generate_negatives g k st_o split_id tt f strategy cb rej
      = after_negatives g k st_o split_id tt f strategy rej sp_o (b\<lparr>negative := old\<rparr>)"
    using sp_o b_o by (rule generate_negatives_after)
  also have "\<dots> = after_negatives g k st split_id tt f strategy rej sp b"
    by (simp add: after_negatives_def st_o_def sp_o_def negatives_of_positives_graphs
        dict_set_dict_set put_put_bucket cong: sum.case_cong prod.case_cong)
  finally show ?thesis
    by (simp only: w)
qed

text \<open>
  Claim C10. When \<^verbatim>\<open>generate_negatives\<close> returns, the bucket's negatives are exactly
  the list the call generated from the bucket's positives, and its positives are
  unchanged. The negatives that were there before are gone whatever \<^verbatim>\<open>clean_before\<close>
  is: the same call on a generator holding any other negatives (or none) in that bucket,
  with either value of \<^verbatim>\<open>clean_before\<close>, leaves exactly the same generator.
\<close>

theorem generate_negatives_replaces_negatives:
  assumes "generate_negatives g k st split_id tt f strategy clean_before rej = Inr (st', k')"
  shows "\<exists>sp b negs ign sp' b'.
      map_of (graphs st) split_id = Some sp \<and> get_bucket sp tt = Inr b
    \<and> negatives_of_positives g st f strategy rej (positive b) (ignored_rels_positives st) k []
         = Inr (negs, ign, k')
    \<and> map_of (graphs st') split_id = Some sp' \<and> get_bucket sp' tt = Inr b'
    \<and> negative b' = Some negs \<and> positive b' = positive b
    \<and> (\<forall>old cb. generate_negatives g k (with_negative st split_id tt old) split_id tt f strategy cb rej
           = Inr (st', k'))"
proof -
  from assms obtain sp where sp: "map_of (graphs st) split_id = Some sp"
    by (cases "map_of (graphs st) split_id") (simp_all add: generate_negatives_def)
  from assms sp obtain b where b: "get_bucket sp tt = Inr b"
    by (cases "get_bucket sp tt") (simp_all add: generate_negatives_def)
  have after: "after_negatives g k st split_id tt f strategy rej sp b = Inr (st', k')"
    using assms generate_negatives_after [OF sp b] by simp
  then obtain r where loop: "negatives_of_positives g st f strategy rej (positive b)
      (ignored_rels_positives st) k [] = Inr r"
    by (cases "negatives_of_positives g st f strategy rej (positive b)
      (ignored_rels_positives st) k []") (simp_all add: after_negatives_def)
  obtain negs ign k1 where r: "r = (negs, ign, k1)" by (cases r)
  define b' where "b' = b\<lparr>negative := Some negs\<rparr>"
  define sp' where "sp' = put_bucket sp tt b'"
  from after loop r have st': "st' = st\<lparr>graphs := dict_set (graphs st) split_id sp',
      ignored_rels_positives := ign\<rparr>" and k1: "k1 = k'"
    by (simp_all add: after_negatives_def sp'_def b'_def)
  have "map_of (graphs st') split_id = Some sp'"
    by (simp add: st' map_of_dict_set)
  moreover have "get_bucket sp' tt = Inr b'"
    unfolding sp'_def using b by (rule get_put_bucket)
  moreover have "negative b' = Some negs" "positive b' = positive b"
    by (simp_all add: b'_def)
  moreover have "\<forall>old cb. generate_negatives g k (with_negative st split_id tt old) split_id tt f
      strategy cb rej = Inr (st', k')"
    using after_negatives_with_negative [OF sp b] after by simp
  ultimately show ?thesis
    using sp b loop r k1 by blast
qed

subsection \<open>An unknown strategy, a factor that is not positive\<close>





subsection \<open>The random strategies never return the original value\<close>

lemma find_replacement_differs:
  assumes "find_replacement g k flat original candidates attempts = Inr (Some x, c', k')"
  shows "x \<noteq> original"
  using assms
proof (induction "21 - attempts" arbitrary: attempts k candidates)
  case 0
  then have "\<not> attempts \<le> 20" by simp
  with "0.prems" show ?case
    by (subst (asm) find_replacement.simps) simp
next
  case (Suc n)
  show ?case
  proof (cases "length candidates > 1 \<and> attempts \<le> 20")
    case False
    with Suc.prems show ?thesis
      by (subst (asm) find_replacement.simps) auto
  next
    case True
    show ?thesis
    proof (cases "if attempts > 10 then flat else Inr candidates")
      case (Inl e)
      with True Suc.prems show ?thesis
        by (subst (asm) find_replacement.simps) simp
    next
      case (Inr cands)
      show ?thesis
      proof (cases "cands = []")
        case True
        with \<open>length candidates > 1 \<and> attempts \<le> 20\<close> Inr Suc.prems show ?thesis
          by (subst (asm) find_replacement.simps) simp
      next
        case False
        show ?thesis
        proof (cases "sample1 g k cands \<noteq> original")
          case True
          with False \<open>length candidates > 1 \<and> attempts \<le> 20\<close> Inr Suc.prems
          have "x = sample1 g k cands"
            by (subst (asm) find_replacement.simps) (auto simp: Let_def)
          with True show ?thesis by simp
        next
          case same: False
          with False \<open>length candidates > 1 \<and> attempts \<le> 20\<close> Inr Suc.prems
          have rec: "find_replacement g (Suc k) flat original cands (attempts + 1) = Inr (Some x, c', k')"
            by (subst (asm) find_replacement.simps) (simp add: Let_def)
          from Suc.hyps(2) \<open>length candidates > 1 \<and> attempts \<le> 20\<close>
          have "n = 21 - (attempts + 1)" by simp
          from Suc.hyps(1) [OF this rec] show ?thesis .
        qed
      qed
    qed
  qed
qed

text \<open>A negative built from \<open>pos\<close> by the random strategies: same relation, and each
  component differs from the positive's exactly when it had to change.\<close>

definition corrupts :: "edge \<Rightarrow> bool \<Rightarrow> bool \<Rightarrow> edge \<Rightarrow> bool" where
  "corrupts pos change_source change_target e \<longleftrightarrow>
     fst e = fst pos \<and>
     (fst (snd e) \<noteq> fst (snd pos)) = change_source \<and>
     (snd (snd e) \<noteq> snd (snd pos)) = change_target"

lemma negatives_loop_corrupts:
  assumes "negatives_loop g st pos keep cs ct n c_s c_t k negs = Inr (negs', k')"
    and "\<forall>e \<in> set negs. corrupts pos cs ct e"
  shows "\<forall>e \<in> set negs'. corrupts pos cs ct e"
  using assms
proof (induction n arbitrary: c_s c_t k negs)
  case 0
  then show ?case by simp
next
  case (Suc n)
  let ?src = "if cs then find_replacement g k (flat_sources st (fst pos) keep) (fst (snd pos)) c_s 0
              else Inr (Some (fst (snd pos)), c_s, k)"
  obtain source c_s1 k1 where src: "?src = Inr (source, c_s1, k1)"
    using Suc.prems(1) by (cases ?src) (auto split: prod.splits)
  let ?tgt = "if ct then find_replacement g k1 (flat_targets st (fst pos) keep) (snd (snd pos)) c_t 0
              else Inr (Some (snd (snd pos)), c_t, k1)"
  obtain target c_t1 k2 where tgt: "?tgt = Inr (target, c_t1, k2)"
    using Suc.prems(1) src by (cases ?tgt) (auto split: prod.splits)
  let ?negs1 = "case (source, target) of (Some s, Some t) \<Rightarrow> negs @ [(fst pos, s, t)] | _ \<Rightarrow> negs"
  have rec: "negatives_loop g st pos keep cs ct n c_s1 c_t1 k2 ?negs1 = Inr (negs', k')"
    using Suc.prems(1) src tgt by simp
  have s_ok: "(s \<noteq> fst (snd pos)) = cs" if "source = Some s" for s
  proof (cases cs)
    case True
    with src that have "find_replacement g k (flat_sources st (fst pos) keep) (fst (snd pos)) c_s 0
        = Inr (Some s, c_s1, k1)" by simp
    from find_replacement_differs [OF this] True show ?thesis by simp
  next
    case False
    with src that show ?thesis by simp
  qed
  have t_ok: "(t \<noteq> snd (snd pos)) = ct" if "target = Some t" for t
  proof (cases ct)
    case True
    with tgt that have "find_replacement g k1 (flat_targets st (fst pos) keep) (snd (snd pos)) c_t 0
        = Inr (Some t, c_t1, k2)" by simp
    from find_replacement_differs [OF this] True show ?thesis by simp
  next
    case False
    with tgt that show ?thesis by simp
  qed
  have "\<forall>e \<in> set ?negs1. corrupts pos cs ct e"
    using Suc.prems(2) s_ok t_ok
    by (auto simp: corrupts_def split: option.splits)
  with rec show ?case
    by (rule Suc.IH)
qed

lemma random_negatives_corrupt:
  assumes "generate_negatives_random g k st pos n keep cs ct eq = Inr (negs, k')"
  shows "\<forall>e \<in> set negs. corrupts pos cs ct e"
proof -
  from assms obtain c_s c_t where
    "negatives_loop g st pos keep cs ct n c_s c_t k [] = Inr (negs, k')"
    by (cases "initial_candidates st (fst pos) keep cs ct eq")
       (auto simp: generate_negatives_random_def)
  then show ?thesis
    by (rule negatives_loop_corrupts) simp
qed

section \<open>The claims that the code does not meet\<close>

text \<open>
  A relation whose sources are skewed: \<open>A\<close> twice, \<open>B\<close> once. The frequency-weighted
  list of sources is \<open>[A, A, B]\<close>, the domain \<open>[A, B]\<close>.
\<close>

definition skewed :: generator where
  "skewed = (new_generator 1)\<lparr>
      entities := [''A'', ''X'', ''Y'', ''B'', ''Z''],
      relations := [''r''],
      edges := [(''r'', ''A'', ''X''), (''r'', ''A'', ''Y''), (''r'', ''B'', ''Z'')],
      entity_edges := [(''A'', [(''r'', ''A'', ''X''), (''r'', ''A'', ''Y'')]), (''B'', [(''r'', ''B'', ''Z'')])],
      grouped_edges := [(''r'', [(''A'', ''X''), (''A'', ''Y''), (''B'', ''Z'')])],
      domains := [(''r'', [''A'', ''B''])],
      ranges := [(''r'', [''X'', ''Y'', ''Z''])]\<rparr>"

text \<open>
  Claim C6 says that at most 20 candidates are drawn for an endpoint and that the pool is
  switched after 10 failed draws (so do the comments in the source). The loop runs while
  \<^verbatim>\<open>attempts <= 20\<close>, counting from 0, and switches when \<^verbatim>\<open>attempts > 10\<close>:
  \<^item> when every draw returns the original source \<open>A\<close> (raw outputs 0: position 0 of
    \<open>[A, A, B]\<close> and of \<open>[A, B]\<close>), 21 outputs are read before the negative is dropped;
  \<^item> when every raw output is 1 (position 1: \<open>A\<close> in the weighted list, \<open>B\<close> in the
    domain), the first eleven draws still come from the weighted list and fail, and the
    twelfth, the first from the domain, succeeds. A switch after 10 failed draws would
    have made the eleventh succeed.
\<close>

theorem twenty_one_draws_switch_after_eleven:
  "generate_negatives_random (\<lambda>_. 0) 0 skewed (''r'', ''A'', ''X'') 1 True True False False
     = Inr ([], 21)
   \<and> generate_negatives_random (\<lambda>_. 1) 0 skewed (''r'', ''A'', ''X'') 1 True True False False
     = Inr ([(''r'', ''B'', ''X'')], 12)"
  by code_simp

text \<open>A graph with the single edge \<open>(r, A, B)\<close>: \<open>B\<close> has no outward edge.\<close>

definition single_edge :: generator where
  "single_edge = (new_generator 1)\<lparr>
      entities := [''A'', ''B''],
      relations := [''r''],
      edges := [(''r'', ''A'', ''B'')],
      entity_edges := [(''A'', [(''r'', ''A'', ''B'')])],
      grouped_edges := [(''r'', [(''A'', ''B'')])],
      domains := [(''r'', [''A''])],
      ranges := [(''r'', [''B''])]\<rparr>"

text \<open>
  Claim C8 says that the row of an entity without outward edges is all zero and that the
  row of an entity with outward edges sums to 1. The matrix comes from \<^verbatim>\<open>np.empty\<close>
  and only the entries of observed moves are assigned: every other entry is what the
  memory held. With a memory full of 7s, the row of \<open>B\<close> is \<open>[7, 7]\<close> and the row of
  \<open>A\<close> is \<open>[7, 1]\<close>. (Nothing is divided by zero: that part of the claim holds.)
\<close>

theorem movement_rows_hold_memory:
  "matrix_movements single_edge (\<lambda>i j. 7) = Inr [[7, 1], [7, 7]]"
  by code_simp

text \<open>Whatever the memory holds:\<close>

lemma movement_rows_any_memory:
  "matrix_movements single_edge memory = Inr [[memory 0 0, 1], [memory 1 0, memory 1 1]]"
  by (simp add: matrix_movements_def movement_row_def single_edge_def new_generator_def
      count_targets_def dict_set_def etoint_def upt_rec [of 0] upt_rec [of 1] numeral_2_eq_2)

text \<open>
  A run of \<^verbatim>\<open>main\<close> with the PPR strategy on a file with the single line
  \<open>A r B\<close>, everything kept and everything in the test bucket.
\<close>

definition ppr_config :: config where
  "ppr_config = \<lparr>GRAPH_FRACTION = 1, GENERATE_NEGATIVES_TRAINING = True,
     REMOVE_INVERSES = True, MIN_NUM_REL = 1, REACH_FRACTION = 1,
     TESTING_FRACTION = 1, NUMBER_NEGATIVES = 1, NEGATIVES_STRATEGY = ''PPR'',
     COMPUTE_PPR = True\<rparr>"

text \<open>
  Claim C5 says that every negative differs from its positive in each corrupted component,
  for every strategy, PPR included. The random strategies do compare the drawn value with
  the original (\<open>random_negatives_corrupt\<close>); \<^verbatim>\<open>generate_negatives_PPR\<close> does not, and
  the positive's own source and target are in its pools (each entity reaches itself with
  probability at least \<open>alpha\<close>). Here they are the only candidates: the negative
  generated for \<open>(r, A, B)\<close> is \<open>(r, A, B)\<close>.
\<close>

theorem ppr_negative_is_the_positive:
  "(case main ppr_config [(''A'', ''r'', ''B'')] (\<lambda>_. 0) (\<lambda>i j. 0) of
      Inl e \<Rightarrow> False
    | Inr st \<Rightarrow>
        map_of (graphs st) 0 = Some
          \<lparr>train = \<lparr>positive = [], negative = Some []\<rparr>,
           test = \<lparr>positive = [(''r'', ''A'', ''B'')], negative = Some [(''r'', ''A'', ''B'')]\<rparr>\<rparr>)"
  by code_simp

text \<open>
  A generator after a split: one positive in the test bucket, which already holds a
  negative from an earlier call; two positives in the train bucket.
\<close>

definition skewed_split :: generator where
  "skewed_split = skewed\<lparr>graphs :=
     [(0, \<lparr>train = \<lparr>positive = [(''r'', ''A'', ''Y''), (''r'', ''B'', ''Z'')], negative = None\<rparr>,
           test = \<lparr>positive = [(''r'', ''A'', ''X'')], negative = Some [(''r'', ''Q'', ''X'')]\<rparr>\<rparr>)]\<rparr>"

definition skewed_after :: generator where
  "skewed_after = skewed\<lparr>graphs :=
     [(0, \<lparr>train = \<lparr>positive = [(''r'', ''A'', ''Y''), (''r'', ''B'', ''Z'')], negative = None\<rparr>,
           test = \<lparr>positive = [(''r'', ''A'', ''X'')], negative = Some [(''r'', ''B'', ''X'')]\<rparr>\<rparr>)]\<rparr>"

lemma skewed_split_call:
  "generate_negatives (\<lambda>_. 1) 0 skewed_split 0 ''test'' 1 ''change_source'' False False
     = Inr (skewed_after, 14)"
  by code_simp

theorem generate_negatives_replaces_negatives_witness:
  "generate_negatives (\<lambda>_. 1) 0 skewed_split 0 ''test'' 1 ''change_source'' False False
     = Inr (skewed_after, 14)
   \<and> generate_negatives (\<lambda>_. 1) 0 (with_negative skewed_split 0 ''test'' None) 0 ''test'' 1
        ''change_source'' True False
     = Inr (skewed_after, 14)
   \<and> (\<exists>sp' b'. map_of (graphs skewed_after) 0 = Some sp' \<and> get_bucket sp' ''test'' = Inr b'
         \<and> positive b' = [(''r'', ''A'', ''X'')])"
proof -
  from generate_negatives_replaces_negatives [OF skewed_split_call]
  obtain sp b negs ign sp' b' where
    sp: "map_of (graphs skewed_split) 0 = Some sp" and b: "get_bucket sp ''test'' = Inr b"
    and sp': "map_of (graphs skewed_after) 0 = Some sp'" and b': "get_bucket sp' ''test'' = Inr b'"
    and pos: "positive b' = positive b"
    and all: "\<forall>old cb. generate_negatives (\<lambda>_. 1) 0 (with_negative skewed_split 0 ''test'' old) 0
        ''test'' 1 ''change_source'' cb False = Inr (skewed_after, 14)"
    by blast
  from sp b have "positive b = [(''r'', ''A'', ''X'')]"
    by (auto simp: skewed_split_def get_bucket_def)
  with pos sp' b' all skewed_split_call show ?thesis
    by auto
qed

section \<open>Invalid configurations\<close>



definition default_config :: config where
  "default_config = \<lparr>GRAPH_FRACTION = 2 / 10, GENERATE_NEGATIVES_TRAINING = True,
     REMOVE_INVERSES = True, MIN_NUM_REL = 2, REACH_FRACTION = 95 / 100,
     TESTING_FRACTION = 2 / 10, NUMBER_NEGATIVES = 1, NEGATIVES_STRATEGY = ''change_target'',
     COMPUTE_PPR = False\<rparr>"

definition small_file :: "(entity \<times> relation \<times> entity) list" where
  "small_file = [(''A'', ''livesIn'', ''X''), (''B'', ''livesIn'', ''X''), (''C'', ''livesIn'', ''Y''),
     (''D'', ''livesIn'', ''Y''), (''E'', ''livesIn'', ''X'')]"


text \<open>
  With positives in the test bucket the unknown name does make \<^verbatim>\<open>main\<close> fail, but only
  in \<^verbatim>\<open>generate_negatives\<close>, on the generator that reading, pruning and splitting
  have produced.
\<close>

lemma unknown_strategy_fails_late:
  "main (default_config\<lparr>NEGATIVES_STRATEGY := ''bogus''\<rparr>) small_file (\<lambda>_. 0) (\<lambda>i j. 0)
     = Inl UnboundLocalError"
  by code_simp



end
